theory Spec2Isabelle
  imports Complex_Main
begin

section \<open>Load-cell acquisition sketches: the data model\<close>

text \<open>
  The repository holds two Arduino sketches: the single-channel sketch
  (\<^verbatim>\<open>sketch_aug15a.ino\<close>: one HX711, value converted to grams) and the
  four-channel sketch (four HX711 chips, raw counts). Both consist of \<^verbatim>\<open>setup()\<close>
  and \<^verbatim>\<open>loop()\<close>. Everything a sketch does is a call of an external primitive
  (HX711 driver, serial port, clock), so the state of a sketch is the log of these
  calls, in the order they are made, together with the sketch's global variables.

  The sketches do no integer arithmetic: a \<^verbatim>\<open>long\<close> raw value is only printed or
  converted to \<^verbatim>\<open>float\<close>, and the \<^verbatim>\<open>unsigned long\<close> clock value is only
  printed. Raw values are therefore integers and clock values natural numbers; the
  wrap-around of the clock is outside the model. The one HX711 of the single-channel
  sketch is channel 0.
\<close>

datatype cfloat = Finite rat | Infinite | NaN

datatype event =
    SerialBegin nat
  | HxBegin nat nat nat
  | Delay nat
  | HxTare nat
  | HxIsReady nat bool
  | HxReadAverage nat nat int
  | Millis nat
  | SerialWrite string

text \<open>
  \<open>HxBegin i dout sck\<close>: \<^verbatim>\<open>begin(dout, sck)\<close> on channel \<open>i\<close>;
  \<open>HxIsReady i r\<close>: \<^verbatim>\<open>is_ready()\<close> on channel \<open>i\<close> returned \<open>r\<close>;
  \<open>HxReadAverage i n v\<close>: \<^verbatim>\<open>read_average(n)\<close> on channel \<open>i\<close> returned \<open>v\<close>;
  \<open>Millis t\<close>: \<^verbatim>\<open>millis()\<close> returned \<open>t\<close>;
  \<open>SerialWrite bs\<close>: the bytes \<open>bs\<close> were written to the serial port.
\<close>

record board =
  trace :: "event list"

record single_sketch = board +
  calibration_factor :: cfloat

text \<open>
  What the hardware presents during one pass of \<^verbatim>\<open>loop()\<close>: the readiness of
  each channel at the readiness check, the raw conversions each channel's chip delivers
  (\<open>adc i k\<close> is the \<open>k\<close>-th conversion read from channel \<open>i\<close> in this pass), and
  the value of the millisecond clock when it is read.
\<close>

record input =
  ready :: "nat \<Rightarrow> bool"
  adc :: "nat \<Rightarrow> nat \<Rightarrow> int"
  now :: nat

definition record_event :: "event \<Rightarrow> 'a board_scheme \<Rightarrow> 'a board_scheme" where
  "record_event e s = s\<lparr>trace := trace s @ [e]\<rparr>"

fun bytes_of :: "event \<Rightarrow> string" where
  "bytes_of (SerialWrite bs) = bs"
| "bytes_of _ = []"

definition written :: "event list \<Rightarrow> string" where
  "written evs = concat (map bytes_of evs)"

definition sink :: "'a board_scheme \<Rightarrow> string" where
  "sink s = written (trace s)"

fun is_read :: "event \<Rightarrow> bool" where
  "is_read (HxReadAverage i n v) = True"
| "is_read _ = False"

fun is_delay :: "event \<Rightarrow> bool" where
  "is_delay (Delay ms) = True"
| "is_delay _ = False"

fun is_tare :: "event \<Rightarrow> bool" where
  "is_tare (HxTare i) = True"
| "is_tare _ = False"

fun is_poll :: "event \<Rightarrow> bool" where
  "is_poll (HxIsReady i r) = True"
| "is_poll _ = False"

section \<open>The external primitives\<close>

subsection \<open>Serial port and clock (Arduino core)\<close>

definition crlf :: string where
  "crlf = [CHR 0x0D, CHR 0x0A]"

definition Serial_begin :: "nat \<Rightarrow> 'a board_scheme \<Rightarrow> 'a board_scheme" where
  "Serial_begin baud s = record_event (SerialBegin baud) s"

definition Serial_print :: "string \<Rightarrow> 'a board_scheme \<Rightarrow> 'a board_scheme" where
  "Serial_print str s = record_event (SerialWrite str) s"

definition Serial_newline :: "'a board_scheme \<Rightarrow> 'a board_scheme" where
  "Serial_newline s = record_event (SerialWrite crlf) s"

definition Serial_println :: "string \<Rightarrow> 'a board_scheme \<Rightarrow> 'a board_scheme" where
  "Serial_println str s = Serial_newline (Serial_print str s)"

definition delay :: "nat \<Rightarrow> 'a board_scheme \<Rightarrow> 'a board_scheme" where
  "delay ms s = record_event (Delay ms) s"

definition millis :: "input \<Rightarrow> 'a board_scheme \<Rightarrow> nat \<times> 'a board_scheme" where
  "millis inp s = (now inp, record_event (Millis (now inp)) s)"

text \<open>
  Modelled from the spec: the number printing of the Arduino core
  (\<^verbatim>\<open>Serial.print\<close> of an \<^verbatim>\<open>unsigned long\<close>, a \<^verbatim>\<open>long\<close> and a
  \<^verbatim>\<open>double\<close> with a digit count) is not among the sources. The spec fixes the
  fields as \<^verbatim>\<open><uint>\<close>, \<^verbatim>\<open><int>\<close> and \<^verbatim>\<open><float with 3 decimals>\<close>: decimal
  digits, a leading minus sign for a negative value, and for a float the integer part,
  a point and exactly the requested number of fraction digits, the value rounded half
  away from zero at the last digit. The arithmetic of the float printer is exact
  here. The texts for values without a decimal expansion (\<^verbatim>\<open>nan\<close>, \<^verbatim>\<open>inf\<close>,
  and \<^verbatim>\<open>ovf\<close> beyond the range of the integer part) are those of the Arduino core.
\<close>

definition digit_char :: "nat \<Rightarrow> char" where
  "digit_char d = ''0123456789'' ! d"

function print_number :: "nat \<Rightarrow> string" where
  "print_number n =
     (if n < 10 then [digit_char n]
      else print_number (n div 10) @ [digit_char (n mod 10)])"
  by pat_completeness auto
termination
  by (relation "measure (\<lambda>n. n)") auto

declare print_number.simps [simp del]

definition print_long :: "int \<Rightarrow> string" where
  "print_long v =
     (if v < 0 then CHR ''-'' # print_number (nat (- v)) else print_number (nat v))"

fun print_fraction :: "nat \<Rightarrow> rat \<Rightarrow> string" where
  "print_fraction 0 remainder = []"
| "print_fraction (Suc k) remainder =
     (let r10 = remainder * 10; toPrint = nat \<lfloor>r10\<rfloor>
      in print_number toPrint @ print_fraction k (r10 - of_nat toPrint))"

definition print_float :: "cfloat \<Rightarrow> nat \<Rightarrow> string" where
  "print_float number digits =
     (case number of
        NaN \<Rightarrow> ''nan''
      | Infinite \<Rightarrow> ''inf''
      | Finite q \<Rightarrow>
          if q > 4294967040 \<or> q < - 4294967040 then ''ovf''
          else
            (let rounded = \<bar>q\<bar> + (1 / 2) / 10 ^ digits;
                 int_part = nat \<lfloor>rounded\<rfloor>;
                 remainder = rounded - of_nat int_part
             in (if q < 0 then ''-'' else [])
                @ print_number int_part
                @ (if digits > 0 then ''.'' else [])
                @ print_fraction digits remainder))"

subsection \<open>Floating-point division of the language\<close>

text \<open>
  The sketch divides a \<^verbatim>\<open>long\<close> by a \<^verbatim>\<open>float\<close>: the \<^verbatim>\<open>long\<close> is converted
  to \<^verbatim>\<open>float\<close> and the quotient is a \<^verbatim>\<open>float\<close>. A float value is a rational, an
  infinity or a NaN (the two zeros and the two infinities are not told apart). The
  rounding of the platform's float format is the parameter \<open>rnd\<close>: it takes the exact
  result to the float that represents it. Division never traps: a zero divisor gives
  an infinity, or NaN for \<open>0 / 0\<close>.
\<close>

fun fdiv :: "(rat \<Rightarrow> cfloat) \<Rightarrow> cfloat \<Rightarrow> cfloat \<Rightarrow> cfloat" where
  "fdiv rnd NaN y = NaN"
| "fdiv rnd x NaN = NaN"
| "fdiv rnd Infinite Infinite = NaN"
| "fdiv rnd Infinite (Finite b) = Infinite"
| "fdiv rnd (Finite a) Infinite = Finite 0"
| "fdiv rnd (Finite a) (Finite b) =
     (if b = 0 then (if a = 0 then NaN else Infinite) else rnd (a / b))"

definition long_to_float :: "(rat \<Rightarrow> cfloat) \<Rightarrow> int \<Rightarrow> cfloat" where
  "long_to_float rnd v = rnd (of_int v)"

text \<open>The expression \<^verbatim>\<open>raw / calibration_factor\<close> of the single-channel sketch.\<close>

definition grams_of :: "(rat \<Rightarrow> cfloat) \<Rightarrow> int \<Rightarrow> cfloat \<Rightarrow> cfloat" where
  "grams_of rnd raw factor = fdiv rnd (long_to_float rnd raw) factor"

subsection \<open>HX711 driver\<close>

text \<open>
  Modelled from the spec: the HX711 driver library is not among the sources. The spec
  gives it three primitives per channel: \<^verbatim>\<open>isReady() -> bool\<close> (true when a new
  conversion is available), \<^verbatim>\<open>readAverage(n) -> integer\<close> (drains \<open>n\<close> raw
  conversions and returns their arithmetic mean, rounded toward zero; requires
  \<open>n \<ge> 1\<close>) and \<^verbatim>\<open>tare()\<close> (records a zero-offset baseline inside the driver).
  \<open>sample\<close> is the mean of a batch of raw values; an empty batch has no mean.
\<close>

definition trunc_quot :: "int \<Rightarrow> int \<Rightarrow> int" where
  "trunc_quot a b = (if (a < 0) = (b < 0) then \<bar>a\<bar> div \<bar>b\<bar> else - (\<bar>a\<bar> div \<bar>b\<bar>))"

definition truncated_mean :: "int list \<Rightarrow> int" where
  "truncated_mean batch = trunc_quot (sum_list batch) (int (length batch))"

definition sample :: "int list \<Rightarrow> int option" where
  "sample batch = (if batch = [] then None else Some (truncated_mean batch))"

definition raw_batch :: "input \<Rightarrow> nat \<Rightarrow> nat \<Rightarrow> int list" where
  "raw_batch inp i count = map (adc inp i) [0..<count]"

definition HX711_begin :: "nat \<Rightarrow> nat \<Rightarrow> nat \<Rightarrow> 'a board_scheme \<Rightarrow> 'a board_scheme" where
  "HX711_begin i dout sck s = record_event (HxBegin i dout sck) s"

definition HX711_tare :: "nat \<Rightarrow> 'a board_scheme \<Rightarrow> 'a board_scheme" where
  "HX711_tare i s = record_event (HxTare i) s"

definition HX711_is_ready :: "input \<Rightarrow> nat \<Rightarrow> 'a board_scheme \<Rightarrow> bool \<times> 'a board_scheme" where
  "HX711_is_ready inp i s = (ready inp i, record_event (HxIsReady i (ready inp i)) s)"

definition HX711_read_average ::
  "input \<Rightarrow> nat \<Rightarrow> nat \<Rightarrow> 'a board_scheme \<Rightarrow> (int \<times> 'a board_scheme) option" where
  "HX711_read_average inp i count s =
     (case sample (raw_batch inp i count) of
        None \<Rightarrow> None
      | Some v \<Rightarrow> Some (v, record_event (HxReadAverage i count v) s))"

section \<open>The single-channel sketch\<close>

definition HX_DOUT_PIN :: nat where
  "HX_DOUT_PIN = 8"

definition HX_SCK_PIN :: nat where
  "HX_SCK_PIN = 9"

definition boot_single :: single_sketch where
  "boot_single = \<lparr>trace = [], calibration_factor = Finite 1000\<rparr>"

definition setup_single :: "single_sketch \<Rightarrow> single_sketch" where
  "setup_single s0 =
     (let s1 = Serial_begin 115200 s0;
          s2 = HX711_begin 0 HX_DOUT_PIN HX_SCK_PIN s1;
          s3 = delay 1000 s2;
          s4 = HX711_tare 0 s3
      in Serial_println ''millis,grams'' s4)"

definition loop_single ::
  "(rat \<Rightarrow> cfloat) \<Rightarrow> input \<Rightarrow> single_sketch \<Rightarrow> single_sketch option" where
  "loop_single rnd inp s0 =
     (let (r, s1) = HX711_is_ready inp 0 s0 in
      if \<not> r then Some s1
      else
        (case HX711_read_average inp 0 10 s1 of
           None \<Rightarrow> None
         | Some (raw, s2) \<Rightarrow>
             (let grams = grams_of rnd raw (calibration_factor s2);
                  (t, s3) = millis inp s2;
                  s4 = Serial_print (print_number t) s3;
                  s5 = Serial_print '','' s4
              in Some (Serial_println (print_float grams 3) s5))))"

section \<open>The four-channel sketch\<close>

definition DOUT_PINS :: "nat list" where
  "DOUT_PINS = [2, 4, 6, 8]"

definition SCK_PINS :: "nat list" where
  "SCK_PINS = [3, 5, 7, 9]"

definition boot_multi :: board where
  "boot_multi = \<lparr>trace = []\<rparr>"

function begin_from :: "nat \<Rightarrow> board \<Rightarrow> board" where
  "begin_from i s =
     (if i < 4 then begin_from (Suc i) (HX711_begin i (DOUT_PINS ! i) (SCK_PINS ! i) s)
      else s)"
  by pat_completeness auto
termination
  by (relation "measure (\<lambda>(i, s). 4 - i)") auto

function tare_from :: "nat \<Rightarrow> board \<Rightarrow> board" where
  "tare_from i s = (if i < 4 then tare_from (Suc i) (HX711_tare i s) else s)"
  by pat_completeness auto
termination
  by (relation "measure (\<lambda>(i, s). 4 - i)") auto

definition setup_multi :: "board \<Rightarrow> board" where
  "setup_multi s0 =
     (let s1 = Serial_begin 115200 s0;
          s2 = begin_from 0 s1;
          s3 = delay 2000 s2;
          s4 = tare_from 0 s3
      in Serial_println ''millis,raw_ch1,raw_ch2,raw_ch3,raw_ch4'' s4)"

function all_ready_from :: "input \<Rightarrow> nat \<Rightarrow> board \<Rightarrow> bool \<times> board" where
  "all_ready_from inp i s =
     (if i < 4 then
        (let (r, s1) = HX711_is_ready inp i s in
         if \<not> r then (False, s1) else all_ready_from inp (Suc i) s1)
      else (True, s))"
  by pat_completeness auto
termination
  by (relation "measure (\<lambda>(inp, i, s). 4 - i)") auto

function sample_from :: "input \<Rightarrow> nat \<Rightarrow> board \<Rightarrow> board option" where
  "sample_from inp i s =
     (if i < 4 then
        (case HX711_read_average inp i 5 s of
           None \<Rightarrow> None
         | Some (raw, s1) \<Rightarrow>
             sample_from inp (Suc i) (Serial_print (print_long raw) (Serial_print '','' s1)))
      else Some s)"
  by pat_completeness auto
termination
  by (relation "measure (\<lambda>(inp, i, s). 4 - i)") auto

definition loop_multi :: "input \<Rightarrow> board \<Rightarrow> board option" where
  "loop_multi inp s0 =
     (let (all_ready, s1) = all_ready_from inp 0 s0 in
      if \<not> all_ready then Some s1
      else
        (let (t, s2) = millis inp s1;
             s3 = Serial_print (print_number t) s2
         in (case sample_from inp 0 s3 of
               None \<Rightarrow> None
             | Some s4 \<Rightarrow> Some (delay 50 (Serial_newline s4)))))"

declare begin_from.simps [simp del]
declare tare_from.simps [simp del]
declare all_ready_from.simps [simp del]
declare sample_from.simps [simp del]

section \<open>The runtime\<close>

text \<open>
  Modelled from the spec: the \<^verbatim>\<open>main()\<close> of the Arduino core, which calls the
  sketch, is not among the sources. The spec: the startup sequence ``runs exactly once,
  strictly before the acquisition loop begins'', and ``the acquisition loop is an
  infinite sequence of cycles''. A run is observed up to a finite number of passes of
  \<^verbatim>\<open>loop()\<close>, one \<open>input\<close> for each pass.
\<close>

fun passes_single ::
  "(rat \<Rightarrow> cfloat) \<Rightarrow> input list \<Rightarrow> single_sketch \<Rightarrow> single_sketch option" where
  "passes_single rnd [] s = Some s"
| "passes_single rnd (inp # inps) s =
     (case loop_single rnd inp s of
        None \<Rightarrow> None
      | Some s1 \<Rightarrow> passes_single rnd inps s1)"

fun passes_multi :: "input list \<Rightarrow> board \<Rightarrow> board option" where
  "passes_multi [] s = Some s"
| "passes_multi (inp # inps) s =
     (case loop_multi inp s of
        None \<Rightarrow> None
      | Some s1 \<Rightarrow> passes_multi inps s1)"

definition run_single :: "(rat \<Rightarrow> cfloat) \<Rightarrow> input list \<Rightarrow> single_sketch option" where
  "run_single rnd inps = passes_single rnd inps (setup_single boot_single)"

definition run_multi :: "input list \<Rightarrow> board option" where
  "run_multi inps = passes_multi inps (setup_multi boot_multi)"

section \<open>Notions of the specification\<close>

subsection \<open>Steps and readiness\<close>

text \<open>The events a step added to the log, and whether every channel reports ready.\<close>

definition new_events :: "'a board_scheme \<Rightarrow> 'a board_scheme \<Rightarrow> event list" where
  "new_events s s' = drop (length (trace s)) (trace s')"

definition all_channels_ready :: "input \<Rightarrow> nat \<Rightarrow> bool" where
  "all_channels_ready inp n = list_all (ready inp) [0..<n]"

text \<open>
  The Readiness Gate ``short-circuits on the first channel found not ready'': of the
  channels \<open>js\<close>, those polled are the ready ones up to and including the first that
  is not ready.
\<close>

definition polled :: "input \<Rightarrow> nat list \<Rightarrow> nat list" where
  "polled inp js = takeWhile (ready inp) js @ take 1 (dropWhile (ready inp) js)"

fun is_millis :: "event \<Rightarrow> bool" where
  "is_millis (Millis t) = True"
| "is_millis _ = False"

text \<open>
  Events of the acquisition loop: no port or channel initialisation, no tare, no
  delay but the 50 ms pacing delay, and no write that holds the letter \<open>m\<close> (with
  which both header rows begin).
\<close>

fun steady_event :: "event \<Rightarrow> bool" where
  "steady_event (HxIsReady i r) = True"
| "steady_event (HxReadAverage i n v) = True"
| "steady_event (Millis t) = True"
| "steady_event (SerialWrite bs) = (CHR ''m'' \<notin> set bs)"
| "steady_event (Delay ms) = (ms = 50)"
| "steady_event _ = False"

subsection \<open>Sampler\<close>

text \<open>
  The Sampler in the words of the spec: the ``arithmetic mean, rounded toward zero
  (integer truncation)'' of a batch.
\<close>

definition arithmetic_mean :: "int list \<Rightarrow> rat" where
  "arithmetic_mean vals = of_int (sum_list vals) / of_nat (length vals)"

definition toward_zero :: "rat \<Rightarrow> int" where
  "toward_zero q = (if 0 \<le> q then \<lfloor>q\<rfloor> else \<lceil>q\<rceil>)"

subsection \<open>Unit Converter\<close>

text \<open>
  The Unit Converter as the spec words it, \<^verbatim>\<open>toPhysical(raw, factor)\<close>:
  ``\<^verbatim>\<open>raw / factor\<close> [...] if \<^verbatim>\<open>factor == 0\<close>, behavior is undefined/fails with a
  DivisionByZero-class error''.
\<close>

datatype conversion_error = DivisionByZero

definition toPhysical_spec ::
  "(rat \<Rightarrow> cfloat) \<Rightarrow> int \<Rightarrow> cfloat \<Rightarrow> conversion_error + cfloat" where
  "toPhysical_spec rnd raw factor =
     (if factor = Finite 0 then Inl DivisionByZero
      else Inr (fdiv rnd (long_to_float rnd raw) factor))"

subsection \<open>Frame Emitter\<close>

text \<open>
  The Frame Emitter of the spec, \<^verbatim>\<open>emit(timestamp, values[])\<close>: ``comma-separated
  fields: timestamp first, then one field per channel in Channel Set order, terminated
  by a line break''. \<open>fields_of\<close> reads the fields of a line back.
\<close>

definition frame_line :: "nat \<Rightarrow> string list \<Rightarrow> string" where
  "frame_line t vals = print_number t @ concat (map (\<lambda>v. '','' @ v) vals) @ crlf"

fun fields_of :: "string \<Rightarrow> string list" where
  "fields_of [] = [[]]"
| "fields_of (c # cs) =
     (if c = CHR '','' then [] # fields_of cs
      else (case fields_of cs of
              [] \<Rightarrow> [[c]]
            | f # fs \<Rightarrow> (c # f) # fs))"

text \<open>The characters of a field: digits, and the sign, point and letters of a float.\<close>

definition digit_chars :: "char set" where
  "digit_chars = set ''0123456789''"

definition field_chars :: "char set" where
  "field_chars = digit_chars \<union> set ''-.nanifov''"

text \<open>What one channel contributes to a frame of the four-channel sketch.\<close>

definition channel_events :: "input \<Rightarrow> nat \<Rightarrow> event list" where
  "channel_events inp j =
     [HxReadAverage j 5 (truncated_mean (raw_batch inp j 5)), SerialWrite '','',
      SerialWrite (print_long (truncated_mean (raw_batch inp j 5)))]"

text \<open>The bytes one pass of each loop contributes to the output stream.\<close>

definition frame_multi :: "input \<Rightarrow> string" where
  "frame_multi inp =
     (if all_channels_ready inp 4
      then frame_line (now inp)
             (map (\<lambda>i. print_long (truncated_mean (raw_batch inp i 5))) [0..<4])
      else [])"

definition frame_single :: "(rat \<Rightarrow> cfloat) \<Rightarrow> cfloat \<Rightarrow> input \<Rightarrow> string" where
  "frame_single rnd factor inp =
     (if ready inp 0
      then frame_line (now inp)
             [print_float (grams_of rnd (truncated_mean (raw_batch inp 0 10)) factor) 3]
      else [])"

subsection \<open>Concrete inputs\<close>

text \<open>
  Inputs of the scenarios of the spec: every channel ready with raw conversions
  \<open>100\<close>, \<open>200\<close>, \<open>300\<close>, \<open>400\<close> on the four channels; readiness
  \<open>[true, false, true, true]\<close>; one ready channel delivering \<open>4000\<close>. Further, a
  channel whose first two conversions are \<open>-7\<close> and \<open>2\<close>, an input with no channel
  ready, and the single-channel sketch at boot with the calibration factor set to
  zero.
\<close>

definition all_ready_input :: input where
  "all_ready_input = \<lparr>ready = (\<lambda>i. True), adc = (\<lambda>i k. 100 * (int i + 1)), now = 1234\<rparr>"

definition partly_ready_input :: input where
  "partly_ready_input = \<lparr>ready = (\<lambda>i. i \<noteq> 1), adc = (\<lambda>i k. 100 * (int i + 1)), now = 1300\<rparr>"

definition grams_input :: input where
  "grams_input = \<lparr>ready = (\<lambda>i. True), adc = (\<lambda>i k. 4000), now = 1234\<rparr>"

definition signed_input :: input where
  "signed_input = \<lparr>ready = (\<lambda>i. True), adc = (\<lambda>i k. if k = 0 then - 7 else 2), now = 0\<rparr>"

definition idle_input :: input where
  "idle_input = \<lparr>ready = (\<lambda>i. False), adc = (\<lambda>i k. 0), now = 1400\<rparr>"

definition zero_factor_sketch :: single_sketch where
  "zero_factor_sketch = boot_single\<lparr>calibration_factor := Finite 0\<rparr>"

text \<open>One ready channel delivering the raw value \<open>0\<close>.\<close>

definition zero_raw_input :: input where
  "zero_raw_input = \<lparr>ready = (\<lambda>i. True), adc = (\<lambda>i k. 0), now = 1234\<rparr>"

section \<open>Basic facts\<close>

lemma trace_record_event [simp]: "trace (record_event e s) = trace s @ [e]"
  by (simp add: record_event_def)

lemma factor_record_event [simp]:
  "calibration_factor (record_event e s) = calibration_factor s"
  by (simp add: record_event_def)

lemmas prim_defs =
  Serial_begin_def Serial_print_def Serial_newline_def Serial_println_def delay_def
  millis_def HX711_begin_def HX711_tare_def HX711_is_ready_def

lemma new_events_append [simp]: "trace s' = trace s @ evs \<Longrightarrow> new_events s s' = evs"
  by (simp add: new_events_def)

lemma upt_0_4: "[0..<4] = [0, 1, 2, 3::nat]"
  by code_simp

lemma sample_Some:
  "0 < n \<Longrightarrow> sample (raw_batch inp i n) = Some (truncated_mean (raw_batch inp i n))"
  by (simp add: sample_def raw_batch_def)

lemma read_average_Some:
  "0 < n \<Longrightarrow> HX711_read_average inp i n s =
     Some (truncated_mean (raw_batch inp i n),
           record_event (HxReadAverage i n (truncated_mean (raw_batch inp i n))) s)"
  by (simp add: HX711_read_average_def sample_Some)

lemma written_append [simp]: "written (xs @ ys) = written xs @ written ys"
  by (simp add: written_def)

lemma written_Nil [simp]: "written [] = []"
  by (simp add: written_def)

lemma written_Cons [simp]: "written (e # es) = bytes_of e @ written es"
  by (simp add: written_def)

lemma written_polls [simp]: "written (map (\<lambda>j. HxIsReady j (r j)) js) = []"
  by (induction js) simp_all

lemma filter_read_polls [simp]: "filter is_read (map (\<lambda>j. HxIsReady j (r j)) js) = []"
  by (induction js) simp_all

lemma written_channels:
  "written (concat (map (channel_events inp) js)) =
     concat (map (\<lambda>v. '','' @ v)
       (map (\<lambda>i. print_long (truncated_mean (raw_batch inp i 5))) js))"
  by (induction js) (simp_all add: channel_events_def)

lemma frame_line_not_Nil [simp]: "frame_line t vals \<noteq> []"
  by (simp add: frame_line_def crlf_def)

lemma written_multi_ready:
  "written (map (\<lambda>j. HxIsReady j True) [0..<4]
       @ [Millis (now inp), SerialWrite (print_number (now inp))]
       @ concat (map (channel_events inp) [0..<4])
       @ [SerialWrite crlf, Delay 50]) =
   frame_line (now inp) (map (\<lambda>i. print_long (truncated_mean (raw_batch inp i 5))) [0..<4])"
  by (simp add: written_channels frame_line_def)

subsection \<open>The startup sequences\<close>

lemma begin_from_trace:
  "trace (begin_from i s) =
     trace s @ map (\<lambda>j. HxBegin j (DOUT_PINS ! j) (SCK_PINS ! j)) [i..<4]"
proof (induction i s rule: begin_from.induct)
  case (1 i s)
  show ?case
  proof (cases "i < 4")
    case True
    then show ?thesis
      using "1.IH" [OF True]
      by (subst begin_from.simps) (simp add: HX711_begin_def upt_conv_Cons)
  next
    case False
    then show ?thesis by (subst begin_from.simps) simp
  qed
qed

lemma tare_from_trace:
  "trace (tare_from i s) = trace s @ map HxTare [i..<4]"
proof (induction i s rule: tare_from.induct)
  case (1 i s)
  show ?case
  proof (cases "i < 4")
    case True
    then show ?thesis
      using "1.IH" [OF True]
      by (subst tare_from.simps) (simp add: HX711_tare_def upt_conv_Cons)
  next
    case False
    then show ?thesis by (subst tare_from.simps) simp
  qed
qed

lemma setup_multi_trace:
  "trace (setup_multi s) = trace s @
     [SerialBegin 115200, HxBegin 0 2 3, HxBegin 1 4 5, HxBegin 2 6 7, HxBegin 3 8 9,
      Delay 2000, HxTare 0, HxTare 1, HxTare 2, HxTare 3,
      SerialWrite ''millis,raw_ch1,raw_ch2,raw_ch3,raw_ch4'', SerialWrite crlf]"
  by (simp add: setup_multi_def Let_def begin_from_trace tare_from_trace prim_defs
      upt_0_4 DOUT_PINS_def SCK_PINS_def)

lemma setup_single_trace:
  "trace (setup_single s) = trace s @
     [SerialBegin 115200, HxBegin 0 8 9, Delay 1000, HxTare 0,
      SerialWrite ''millis,grams'', SerialWrite crlf]"
  by (simp add: setup_single_def Let_def prim_defs HX_DOUT_PIN_def HX_SCK_PIN_def)

lemma setup_single_factor: "calibration_factor (setup_single s) = calibration_factor s"
  by (simp add: setup_single_def Let_def prim_defs)

subsection \<open>The loops of the four-channel sketch\<close>

lemma all_ready_from_fst:
  "fst (all_ready_from inp i s) = (\<forall>j. i \<le> j \<and> j < 4 \<longrightarrow> ready inp j)"
proof (induction inp i s rule: all_ready_from.induct)
  case (1 inp i s)
  show ?case
  proof (cases "i < 4")
    case False
    then show ?thesis by (subst all_ready_from.simps) auto
  next
    case True
    show ?thesis
    proof (cases "ready inp i")
      case False
      with True show ?thesis
        by (subst all_ready_from.simps) (auto simp: HX711_is_ready_def)
    next
      case r: True
      have "fst (all_ready_from inp (Suc i) (record_event (HxIsReady i True) s))
            = (\<forall>j. Suc i \<le> j \<and> j < 4 \<longrightarrow> ready inp j)"
        using "1.IH" [OF True, of "(True, record_event (HxIsReady i True) s)"] r
        by (simp add: HX711_is_ready_def)
      moreover have "(\<forall>j. i \<le> j \<and> j < 4 \<longrightarrow> ready inp j)
            = (\<forall>j. Suc i \<le> j \<and> j < 4 \<longrightarrow> ready inp j)"
        using r by (metis Suc_leI le_neq_implies_less le_Suc_eq Suc_leD)
      ultimately show ?thesis
        using True r by (subst all_ready_from.simps) (simp add: HX711_is_ready_def)
    qed
  qed
qed

lemma all_ready_from_trace:
  "trace (snd (all_ready_from inp i s)) =
     trace s @ map (\<lambda>j. HxIsReady j (ready inp j)) (polled inp [i..<4])"
proof (induction inp i s rule: all_ready_from.induct)
  case (1 inp i s)
  show ?case
  proof (cases "i < 4")
    case False
    then show ?thesis by (subst all_ready_from.simps) (simp add: polled_def)
  next
    case True
    show ?thesis
    proof (cases "ready inp i")
      case False
      with True show ?thesis
        by (subst all_ready_from.simps)
           (simp add: HX711_is_ready_def polled_def upt_conv_Cons)
    next
      case r: True
      have "trace (snd (all_ready_from inp (Suc i) (record_event (HxIsReady i True) s)))
            = trace (record_event (HxIsReady i True) s)
              @ map (\<lambda>j. HxIsReady j (ready inp j)) (polled inp [Suc i..<4])"
        using "1.IH" [OF True, of "(True, record_event (HxIsReady i True) s)"] r
        by (simp add: HX711_is_ready_def)
      then show ?thesis
        using True r
        by (subst all_ready_from.simps)
           (simp add: HX711_is_ready_def polled_def upt_conv_Cons)
    qed
  qed
qed

lemma sample_from_trace:
  "\<exists>s'. sample_from inp i s = Some s' \<and>
     trace s' = trace s @ concat (map (channel_events inp) [i..<4])"
proof (induction inp i s rule: sample_from.induct)
  case (1 inp i s)
  show ?case
  proof (cases "i < 4")
    case False
    then show ?thesis by (subst sample_from.simps) simp
  next
    case True
    let ?m = "truncated_mean (raw_batch inp i 5)"
    let ?s1 = "record_event (HxReadAverage i 5 ?m) s"
    have ra: "HX711_read_average inp i 5 s = Some (?m, ?s1)"
      by (simp add: read_average_Some)
    obtain s' where s': "sample_from inp (Suc i)
          (Serial_print (print_long ?m) (Serial_print '','' ?s1)) = Some s'"
      and tr: "trace s' = trace (Serial_print (print_long ?m) (Serial_print '','' ?s1))
          @ concat (map (channel_events inp) [Suc i..<4])"
      using "1.IH" [OF True ra refl] by blast
    have "sample_from inp i s = Some s'"
      using True ra s' by (subst sample_from.simps) simp
    moreover have "trace s' = trace s @ concat (map (channel_events inp) [i..<4])"
      using tr True by (simp add: prim_defs upt_conv_Cons channel_events_def)
    ultimately show ?thesis by blast
  qed
qed

subsection \<open>One pass of each loop\<close>

lemma all_channels_ready_iff:
  "all_channels_ready inp n = (\<forall>j. j < n \<longrightarrow> ready inp j)"
  by (auto simp: all_channels_ready_def list_all_iff)

lemma all_ready_from_0: "fst (all_ready_from inp 0 s) = all_channels_ready inp 4"
  by (simp add: all_ready_from_fst all_channels_ready_iff)

lemma polled_all_ready:
  "all_channels_ready inp n \<Longrightarrow> polled inp [0..<n] = [0..<n]"
proof -
  assume "all_channels_ready inp n"
  then have a: "\<forall>x\<in>set [0..<n]. ready inp x"
    by (simp add: all_channels_ready_def list_all_iff)
  have tw: "takeWhile (ready inp) [0..<n] = [0..<n]"
    using a by (simp only: takeWhile_eq_all_conv)
  have dw: "dropWhile (ready inp) [0..<n] = []"
    using a by (simp only: dropWhile_eq_Nil_conv)
  show ?thesis
    unfolding polled_def by (simp only: tw dw take.simps append_Nil2)
qed

lemma loop_multi_ready:
  assumes "all_channels_ready inp 4"
  shows "\<exists>s'. loop_multi inp s = Some s' \<and>
     trace s' = trace s @ map (\<lambda>j. HxIsReady j True) [0..<4]
       @ [Millis (now inp), SerialWrite (print_number (now inp))]
       @ concat (map (channel_events inp) [0..<4])
       @ [SerialWrite crlf, Delay 50]"
proof -
  obtain b s1 where g: "all_ready_from inp 0 s = (b, s1)"
    by (cases "all_ready_from inp 0 s")
  have b: "b" using all_ready_from_0 [of inp s] g assms by simp
  have "trace s1 = trace s @ map (\<lambda>j. HxIsReady j (ready inp j)) [0..<4]"
    using all_ready_from_trace [of inp 0 s] g polled_all_ready [OF assms] by simp
  moreover have "map (\<lambda>j. HxIsReady j (ready inp j)) [0..<4]
      = map (\<lambda>j. HxIsReady j True) [0..<4]"
    using assms by (simp add: all_channels_ready_iff)
  ultimately have t1: "trace s1 = trace s @ map (\<lambda>j. HxIsReady j True) [0..<4]"
    by simp
  let ?s3 = "Serial_print (print_number (now inp)) (record_event (Millis (now inp)) s1)"
  obtain s4 where s4: "sample_from inp 0 ?s3 = Some s4"
    and t4: "trace s4 = trace ?s3 @ concat (map (channel_events inp) [0..<4])"
    using sample_from_trace [of inp 0 ?s3] by blast
  have "loop_multi inp s = Some (delay 50 (Serial_newline s4))"
    using g b s4 by (simp add: loop_multi_def millis_def)
  moreover have "trace (delay 50 (Serial_newline s4)) =
       trace s @ map (\<lambda>j. HxIsReady j True) [0..<4]
       @ [Millis (now inp), SerialWrite (print_number (now inp))]
       @ concat (map (channel_events inp) [0..<4])
       @ [SerialWrite crlf, Delay 50]"
    using t4 t1 by (simp add: prim_defs)
  ultimately show ?thesis by blast
qed

lemma loop_multi_unready:
  assumes "\<not> all_channels_ready inp 4"
  shows "\<exists>s'. loop_multi inp s = Some s' \<and>
     trace s' = trace s @ map (\<lambda>j. HxIsReady j (ready inp j)) (polled inp [0..<4])"
proof -
  obtain b s1 where g: "all_ready_from inp 0 s = (b, s1)"
    by (cases "all_ready_from inp 0 s")
  have b: "\<not> b" using all_ready_from_0 [of inp s] g assms by simp
  have "trace s1 = trace s @ map (\<lambda>j. HxIsReady j (ready inp j)) (polled inp [0..<4])"
    using all_ready_from_trace [of inp 0 s] g by simp
  moreover have "loop_multi inp s = Some s1"
    using g b by (simp add: loop_multi_def)
  ultimately show ?thesis by blast
qed

lemma loop_single_ready:
  assumes "ready inp 0"
  shows "\<exists>s'. loop_single rnd inp s = Some s' \<and>
     calibration_factor s' = calibration_factor s \<and>
     trace s' = trace s @
       [HxIsReady 0 True,
        HxReadAverage 0 10 (truncated_mean (raw_batch inp 0 10)),
        Millis (now inp),
        SerialWrite (print_number (now inp)),
        SerialWrite '','',
        SerialWrite (print_float
          (grams_of rnd (truncated_mean (raw_batch inp 0 10)) (calibration_factor s)) 3),
        SerialWrite crlf]"
  using assms
  by (simp add: loop_single_def read_average_Some prim_defs Let_def)

lemma loop_single_unready:
  assumes "\<not> ready inp 0"
  shows "\<exists>s'. loop_single rnd inp s = Some s' \<and>
     calibration_factor s' = calibration_factor s \<and>
     trace s' = trace s @ [HxIsReady 0 False]"
  using assms
  by (simp add: loop_single_def prim_defs Let_def)

subsection \<open>The Sampler\<close>

lemma truncated_mean_toward_zero:
  assumes "vals \<noteq> []"
  shows "truncated_mean vals = toward_zero (arithmetic_mean vals)"
proof -
  let ?S = "sum_list vals" and ?n = "int (length vals)"
  have n: "0 < ?n" using assms by simp
  have q: "arithmetic_mean vals = of_int ?S / of_int ?n"
    by (simp add: arithmetic_mean_def)
  show ?thesis
  proof (cases "0 \<le> ?S")
    case True
    then have "0 \<le> arithmetic_mean vals"
      unfolding q using n by simp
    moreover have "\<lfloor>(of_int ?S :: rat) / of_int ?n\<rfloor> = ?S div ?n"
      by (rule floor_divide_of_int_eq)
    ultimately show ?thesis
      using True n by (simp add: truncated_mean_def trunc_quot_def toward_zero_def q)
  next
    case False
    then have neg: "?S < 0" by simp
    then have "arithmetic_mean vals < 0"
      unfolding q using n by (simp add: divide_neg_pos)
    moreover have "\<lceil>(of_int ?S :: rat) / of_int ?n\<rceil> = - \<lfloor>(of_int (- ?S) :: rat) / of_int ?n\<rfloor>"
      by (simp add: ceiling_def)
    moreover have "\<lfloor>(of_int (- ?S) :: rat) / of_int ?n\<rfloor> = (- ?S) div ?n"
      by (rule floor_divide_of_int_eq)
    ultimately show ?thesis
      using neg n by (simp add: truncated_mean_def trunc_quot_def toward_zero_def q)
  qed
qed

lemma raw_batch_known:
  assumes "length vals = B" and "\<forall>k<B. adc inp i k = vals ! k"
  shows "raw_batch inp i B = vals"
  using assms by (auto simp: raw_batch_def intro: nth_equalityI)

lemma filter_read_channels:
  "filter is_read (concat (map (channel_events inp) js)) =
     map (\<lambda>i. HxReadAverage i 5 (truncated_mean (raw_batch inp i 5))) js"
  by (induction js) (simp_all add: channel_events_def)

subsection \<open>The number printers and the division\<close>

lemma print_number_digit: "d < 10 \<Longrightarrow> print_number d = [digit_char d]"
  by (subst print_number.simps) simp

lemma floor_times_10_div: "\<lfloor>y :: rat\<rfloor> = \<lfloor>10 * y\<rfloor> div 10"
proof -
  have lo: "10 * \<lfloor>y\<rfloor> \<le> \<lfloor>10 * y\<rfloor>"
  proof -
    have "of_int (10 * \<lfloor>y\<rfloor>) \<le> 10 * y"
      using of_int_floor_le [of y] by simp
    then show ?thesis by (simp only: le_floor_iff)
  qed
  have hi: "\<lfloor>10 * y\<rfloor> < 10 * \<lfloor>y\<rfloor> + 10"
  proof -
    have "y < of_int (\<lfloor>y\<rfloor> + 1)"
      using floor_correct [of y] by simp
    then have "10 * y < of_int (10 * \<lfloor>y\<rfloor> + 10)" by simp
    then show ?thesis by (simp only: floor_less_iff)
  qed
  from lo hi show ?thesis by presburger
qed

lemma next_digit:
  "nat \<lfloor>(y - of_int \<lfloor>y\<rfloor>) * 10 :: rat\<rfloor> = nat (\<lfloor>10 * y\<rfloor> mod 10)"
proof -
  have "(y - of_int \<lfloor>y\<rfloor>) * 10 = 10 * y - of_int (10 * \<lfloor>y\<rfloor>)"
    by (simp add: algebra_simps)
  then have "\<lfloor>(y - of_int \<lfloor>y\<rfloor>) * 10\<rfloor> = \<lfloor>10 * y\<rfloor> - 10 * \<lfloor>y\<rfloor>"
    by (simp only: floor_diff_of_int)
  also have "\<dots> = \<lfloor>10 * y\<rfloor> mod 10"
    by (subst floor_times_10_div [of y]) (simp add: minus_mult_div_eq_mod mult.commute)
  finally show ?thesis by simp
qed

lemma print_fraction_digits:
  "print_fraction k (y - of_int \<lfloor>y\<rfloor>) =
     map (\<lambda>j. digit_char (nat (\<lfloor>10 ^ Suc j * y\<rfloor> mod 10))) [0..<k]"
proof (induction k arbitrary: y)
  case 0
  show ?case by simp
next
  case (Suc k)
  let ?d = "nat (\<lfloor>10 * y\<rfloor> mod 10)"
  have d: "nat \<lfloor>(y - of_int \<lfloor>y\<rfloor>) * 10\<rfloor> = ?d"
    by (rule next_digit)
  have lt: "?d < 10" by simp
  have rest: "(y - of_int \<lfloor>y\<rfloor>) * 10 - of_nat ?d = 10 * y - of_int \<lfloor>10 * y\<rfloor>"
  proof -
    have "\<lfloor>10 * y\<rfloor> mod 10 = \<lfloor>10 * y\<rfloor> - 10 * \<lfloor>y\<rfloor>"
      by (subst floor_times_10_div [of y]) (simp add: minus_mult_div_eq_mod mult.commute)
    moreover have "0 \<le> \<lfloor>10 * y\<rfloor> mod 10" by simp
    ultimately have "(of_nat ?d :: rat) = of_int \<lfloor>10 * y\<rfloor> - 10 * of_int \<lfloor>y\<rfloor>"
      by (metis of_int_diff of_int_mult of_int_numeral of_nat_nat)
    then show ?thesis by (simp add: algebra_simps)
  qed
  have "print_fraction (Suc k) (y - of_int \<lfloor>y\<rfloor>) =
      digit_char ?d # print_fraction k (10 * y - of_int \<lfloor>10 * y\<rfloor>)"
    by (simp only: print_fraction.simps Let_def d rest print_number_digit [OF lt] append.simps)
  also have "\<dots> = digit_char ?d #
      map (\<lambda>j. digit_char (nat (\<lfloor>10 ^ Suc j * (10 * y)\<rfloor> mod 10))) [0..<k]"
    by (simp only: Suc.IH)
  also have "\<dots> = map (\<lambda>j. digit_char (nat (\<lfloor>10 ^ Suc j * y\<rfloor> mod 10))) [0..<Suc k]"
    by (simp add: upt_rec [of 0 "Suc k"] map_Suc_upt [symmetric] mult.assoc mult.commute mult.left_commute
        del: upt_Suc)
  finally show ?case .
qed


lemma print_float_3:
  assumes "\<bar>q\<bar> \<le> 4294967040"
  defines "N \<equiv> nat \<lfloor>\<bar>q\<bar> * 1000 + 1 / 2\<rfloor>"
  shows "print_float (Finite q) 3 =
     (if q < 0 then ''-'' else []) @ print_number (N div 1000) @ ''.'' @
     [digit_char (N div 100 mod 10), digit_char (N div 10 mod 10), digit_char (N mod 10)]"
proof -
  let ?y = "\<bar>q\<bar> + (1 / 2) / 10 ^ 3"
  have y3: "10 ^ 3 * ?y = \<bar>q\<bar> * 1000 + 1 / 2" by simp
  have nonneg: "0 \<le> \<lfloor>\<bar>q\<bar> * 1000 + 1 / 2\<rfloor>" by simp
  have f3: "\<lfloor>10 ^ 3 * ?y\<rfloor> = int N"
    unfolding y3 N_def using nonneg by simp
  have f2: "\<lfloor>10 ^ 2 * ?y\<rfloor> = int (N div 10)"
    using floor_times_10_div [of "10 ^ 2 * ?y"] f3
    by (simp add: zdiv_int mult.assoc [symmetric])
  have f1: "\<lfloor>10 * ?y\<rfloor> = int (N div 100)"
    using floor_times_10_div [of "10 * ?y"] f2
    by (simp add: zdiv_int mult.assoc [symmetric] div_mult2_eq)
  have f0: "\<lfloor>?y\<rfloor> = int (N div 1000)"
    using floor_times_10_div [of "?y"] f1
    by (simp add: zdiv_int div_mult2_eq)
  have range: "\<not> (q > 4294967040 \<or> q < - 4294967040)"
    using assms(1) by (auto simp: abs_le_iff)
  have frac: "print_fraction 3 (?y - of_int \<lfloor>?y\<rfloor>) =
      [digit_char (N div 100 mod 10), digit_char (N div 10 mod 10), digit_char (N mod 10)]"
  proof -
    have "print_fraction 3 (?y - of_int \<lfloor>?y\<rfloor>) =
        map (\<lambda>j. digit_char (nat (\<lfloor>10 ^ Suc j * ?y\<rfloor> mod 10))) [0..<3]"
      by (rule print_fraction_digits)
    also have "[0..<3] = [0, 1, 2::nat]" by code_simp
    finally have "print_fraction 3 (?y - of_int \<lfloor>?y\<rfloor>) =
        [digit_char (nat (\<lfloor>10 * ?y\<rfloor> mod 10)), digit_char (nat (\<lfloor>10 ^ 2 * ?y\<rfloor> mod 10)),
         digit_char (nat (\<lfloor>10 ^ 3 * ?y\<rfloor> mod 10))]"
      by (simp add: power2_eq_square power3_eq_cube)
    moreover have "\<And>a::nat. nat (int a mod 10) = a mod 10"
      by (simp add: nat_mod_distrib)
    ultimately show ?thesis
      by (simp only: f1 f2 f3)
  qed
  have ip: "nat \<lfloor>?y\<rfloor> = N div 1000"
    using f0 by simp
  have rem: "?y - of_nat (N div 1000) = ?y - of_int \<lfloor>?y\<rfloor>"
    using f0 by simp
  have "print_float (Finite q) 3 =
      (if q < 0 then ''-'' else []) @ print_number (nat \<lfloor>?y\<rfloor>) @ ''.'' @
      print_fraction 3 (?y - of_nat (nat \<lfloor>?y\<rfloor>))"
    using range by (simp add: print_float_def Let_def)
  then show ?thesis
    by (simp only: ip rem frac)
qed


lemma grams_of_Finite:
  "b \<noteq> 0 \<Longrightarrow> rnd (of_int raw) = Finite a \<Longrightarrow> grams_of rnd raw (Finite b) = rnd (a / b)"
  by (simp add: grams_of_def long_to_float_def)

lemma print_float_4: "print_float (Finite 4) 3 = ''4.000''"
  by code_simp

subsection \<open>Fields and lines\<close>

lemma digit_char_in: "d < 10 \<Longrightarrow> digit_char d \<in> digit_chars"
proof -
  assume "d < 10"
  then have "d \<in> {0, 1, 2, 3, 4, 5, 6, 7, 8, 9}" by auto
  then show ?thesis
    by (auto simp: digit_char_def digit_chars_def)
qed

lemma print_number_chars: "set (print_number n) \<subseteq> digit_chars"
proof (induction n rule: print_number.induct)
  case (1 n)
  show ?case
  proof (cases "n < 10")
    case True
    then show ?thesis
      by (subst print_number.simps) (simp add: digit_char_in)
  next
    case False
    then show ?thesis
      using "1.IH" by (subst print_number.simps) (simp add: digit_char_in)
  qed
qed

lemma print_long_chars: "set (print_long v) \<subseteq> insert CHR ''-'' digit_chars"
  using print_number_chars by (auto simp: print_long_def)

lemma print_fraction_chars: "set (print_fraction k r) \<subseteq> digit_chars"
  using print_number_chars by (induction k arbitrary: r) (auto simp: Let_def)

lemma print_float_chars:
  "set (print_float x k) \<subseteq> digit_chars \<union> set ''-.nanifov''"
proof (cases x)
  case (Finite q)
  then show ?thesis
    by (auto simp: print_float_def Let_def
        dest: subsetD [OF print_number_chars] subsetD [OF print_fraction_chars])
next
  case Infinite
  then show ?thesis by (simp add: print_float_def)
next
  case NaN
  then show ?thesis by (simp add: print_float_def)
qed

lemma field_chars_no_separator:
  "CHR '','' \<notin> field_chars" "CHR 0x0D \<notin> field_chars" "CHR 0x0A \<notin> field_chars"
  "CHR ''m'' \<notin> field_chars"
  by (simp_all add: field_chars_def digit_chars_def)

lemma number_field: "set (print_number n) \<subseteq> field_chars"
  using print_number_chars by (auto simp: field_chars_def)

lemma long_field: "set (print_long v) \<subseteq> field_chars"
  using print_long_chars by (auto simp: field_chars_def)

lemma float_field: "set (print_float x k) \<subseteq> field_chars"
  using print_float_chars by (auto simp: field_chars_def)

lemma fields_of_not_Nil [simp]: "fields_of cs \<noteq> []"
  by (induction cs) (auto split: list.splits)

lemma fields_of_single: "CHR '','' \<notin> set a \<Longrightarrow> fields_of a = [a]"
  by (induction a) (auto split: list.splits)

lemma fields_of_comma:
  "CHR '','' \<notin> set a \<Longrightarrow> fields_of (a @ CHR '','' # rest) = a # fields_of rest"
  by (induction a) (auto split: list.splits)

lemma fields_of_joined:
  "CHR '','' \<notin> set t \<Longrightarrow> \<forall>v\<in>set vals. CHR '','' \<notin> set v \<Longrightarrow>
     fields_of (t @ concat (map (\<lambda>v. '','' @ v) vals)) = t # vals"
proof (induction vals arbitrary: t)
  case Nil
  then show ?case by (simp add: fields_of_single)
next
  case (Cons v vals)
  have "fields_of (t @ concat (map (\<lambda>v. '','' @ v) (v # vals))) =
      fields_of (t @ CHR '','' # (v @ concat (map (\<lambda>v. '','' @ v) vals)))"
    by simp
  also have "\<dots> = t # fields_of (v @ concat (map (\<lambda>v. '','' @ v) vals))"
    using Cons.prems(1) by (rule fields_of_comma)
  also have "\<dots> = t # v # vals"
    using Cons.IH [of v] Cons.prems(2) by simp
  finally show ?case .
qed

lemma frame_line_fields:
  assumes "\<forall>v\<in>set vals. set v \<subseteq> field_chars"
  shows "\<exists>line. frame_line t vals = line @ crlf \<and> fields_of line = print_number t # vals \<and>
     set line \<inter> set crlf = {}"
proof -
  let ?line = "print_number t @ concat (map (\<lambda>v. '','' @ v) vals)"
  have t: "set (print_number t) \<subseteq> field_chars" by (rule number_field)
  have "fields_of ?line = print_number t # vals"
    using t assms field_chars_no_separator(1) by (intro fields_of_joined) auto
  moreover have "set ?line \<inter> set crlf = {}"
  proof -
    have sub: "set ?line \<subseteq> insert CHR '','' field_chars"
      using t assms by auto
    have "insert CHR '','' field_chars \<inter> set crlf = {}"
      using field_chars_no_separator by (simp add: crlf_def)
    with sub show ?thesis by blast
  qed
  moreover have "frame_line t vals = ?line @ crlf"
    by (simp add: frame_line_def)
  ultimately show ?thesis by blast
qed


lemma loop_multi_frame:
  assumes "all_channels_ready inp 4"
  shows "\<exists>s'. loop_multi inp s = Some s' \<and>
     written (new_events s s') =
       frame_line (now inp) (map (\<lambda>i. print_long (truncated_mean (raw_batch inp i 5))) [0..<4])"
proof -
  from loop_multi_ready [OF assms, of s] obtain s' where
    l: "loop_multi inp s = Some s'" and
    n: "new_events s s' = map (\<lambda>j. HxIsReady j True) [0..<4]
     @ [Millis (now inp), SerialWrite (print_number (now inp))]
     @ concat (map (channel_events inp) [0..<4])
     @ [SerialWrite crlf, Delay 50]"
    using new_events_append by blast
  have "written (new_events s s') = frame_line (now inp)
      (map (\<lambda>i. print_long (truncated_mean (raw_batch inp i 5))) [0..<4])"
    by (simp only: n written_multi_ready)
  with l show ?thesis by blast
qed

lemma loop_single_frame:
  assumes "ready inp 0"
  shows "\<exists>z'. loop_single rnd inp z = Some z' \<and>
     written (new_events z z') =
       frame_line (now inp)
         [print_float (grams_of rnd (truncated_mean (raw_batch inp 0 10))
            (calibration_factor z)) 3]"
proof -
  from loop_single_ready [OF assms, of rnd z] obtain z' where
    "loop_single rnd inp z = Some z'" and
    "new_events z z' = [HxIsReady 0 True,
      HxReadAverage 0 10 (truncated_mean (raw_batch inp 0 10)),
      Millis (now inp),
      SerialWrite (print_number (now inp)),
      SerialWrite '','',
      SerialWrite (print_float
        (grams_of rnd (truncated_mean (raw_batch inp 0 10)) (calibration_factor z)) 3),
      SerialWrite crlf]"
    using new_events_append by blast
  then show ?thesis by (simp add: frame_line_def)
qed

subsection \<open>Runs\<close>

lemma no_m_number: "CHR ''m'' \<notin> set (print_number n)"
  using number_field [of n] field_chars_no_separator(4) by blast

lemma no_m_long: "CHR ''m'' \<notin> set (print_long v)"
  using long_field [of v] field_chars_no_separator(4) by blast

lemma no_m_float: "CHR ''m'' \<notin> set (print_float x k)"
  using float_field [of x k] field_chars_no_separator(4) by blast

lemma steady_polls: "list_all steady_event (map (\<lambda>j. HxIsReady j (r j)) js)"
  by (induction js) simp_all

lemma steady_channels: "list_all steady_event (concat (map (channel_events inp) js))"
  by (induction js) (simp_all add: channel_events_def no_m_long)

lemma loop_multi_steady:
  "\<exists>s' evs. loop_multi inp s = Some s' \<and> trace s' = trace s @ evs \<and>
     list_all steady_event evs \<and> written evs = frame_multi inp"
proof (cases "all_channels_ready inp 4")
  case True
  from loop_multi_ready [OF True, of s] obtain s' where
    l: "loop_multi inp s = Some s'" and
    t: "trace s' = trace s @ map (\<lambda>j. HxIsReady j True) [0..<4]
       @ [Millis (now inp), SerialWrite (print_number (now inp))]
       @ concat (map (channel_events inp) [0..<4])
       @ [SerialWrite crlf, Delay 50]"
    by blast
  have "list_all steady_event (map (\<lambda>j. HxIsReady j True) [0..<4]
       @ [Millis (now inp), SerialWrite (print_number (now inp))]
       @ concat (map (channel_events inp) [0..<4])
       @ [SerialWrite crlf, Delay 50])"
    by (simp add: steady_polls steady_channels no_m_number crlf_def)
  moreover have "written (map (\<lambda>j. HxIsReady j True) [0..<4]
       @ [Millis (now inp), SerialWrite (print_number (now inp))]
       @ concat (map (channel_events inp) [0..<4])
       @ [SerialWrite crlf, Delay 50]) = frame_multi inp"
    using True by (simp only: written_multi_ready frame_multi_def if_True)
  ultimately show ?thesis using l t by blast
next
  case False
  from loop_multi_unready [OF False, of s] obtain s' where
    l: "loop_multi inp s = Some s'" and
    t: "trace s' = trace s @ map (\<lambda>j. HxIsReady j (ready inp j)) (polled inp [0..<4])"
    by blast
  have "written (map (\<lambda>j. HxIsReady j (ready inp j)) (polled inp [0..<4])) = frame_multi inp"
    using False by (simp add: frame_multi_def)
  then show ?thesis using l t steady_polls by blast
qed

lemma loop_single_steady:
  "\<exists>z' evs. loop_single rnd inp z = Some z' \<and> trace z' = trace z @ evs \<and>
     calibration_factor z' = calibration_factor z \<and>
     list_all steady_event evs \<and> filter is_delay evs = [] \<and>
     written evs = frame_single rnd (calibration_factor z) inp"
proof (cases "ready inp 0")
  case True
  from loop_single_ready [OF True, of rnd z] obtain z' where
    l: "loop_single rnd inp z = Some z'" and c: "calibration_factor z' = calibration_factor z" and
    t: "trace z' = trace z @ [HxIsReady 0 True,
        HxReadAverage 0 10 (truncated_mean (raw_batch inp 0 10)),
        Millis (now inp),
        SerialWrite (print_number (now inp)),
        SerialWrite '','',
        SerialWrite (print_float
          (grams_of rnd (truncated_mean (raw_batch inp 0 10)) (calibration_factor z)) 3),
        SerialWrite crlf]"
    by blast
  have "list_all steady_event [HxIsReady 0 True,
        HxReadAverage 0 10 (truncated_mean (raw_batch inp 0 10)),
        Millis (now inp),
        SerialWrite (print_number (now inp)),
        SerialWrite '','',
        SerialWrite (print_float
          (grams_of rnd (truncated_mean (raw_batch inp 0 10)) (calibration_factor z)) 3),
        SerialWrite crlf]"
    by (simp add: no_m_number no_m_float crlf_def)
  with l c t True show ?thesis
    by (intro exI [of _ z'] exI [of _ "[HxIsReady 0 True,
        HxReadAverage 0 10 (truncated_mean (raw_batch inp 0 10)),
        Millis (now inp),
        SerialWrite (print_number (now inp)),
        SerialWrite '','',
        SerialWrite (print_float
          (grams_of rnd (truncated_mean (raw_batch inp 0 10)) (calibration_factor z)) 3),
        SerialWrite crlf]"]) (simp add: frame_single_def frame_line_def)
next
  case False
  from loop_single_unready [OF False, of rnd z] obtain z' where
    "loop_single rnd inp z = Some z'" "calibration_factor z' = calibration_factor z"
    "trace z' = trace z @ [HxIsReady 0 False]"
    by blast
  with False show ?thesis
    by (intro exI [of _ z'] exI [of _ "[HxIsReady 0 False]"]) (simp add: frame_single_def)
qed

lemma passes_multi_steady:
  "\<exists>s' evs. passes_multi inps s = Some s' \<and> trace s' = trace s @ evs \<and>
     list_all steady_event evs \<and> written evs = concat (map frame_multi inps)"
proof (induction inps arbitrary: s)
  case Nil
  show ?case by simp
next
  case (Cons inp inps)
  obtain s1 evs1 where l: "loop_multi inp s = Some s1" and t1: "trace s1 = trace s @ evs1"
    and e1: "list_all steady_event evs1" and w1: "written evs1 = frame_multi inp"
    using loop_multi_steady [of inp s] by blast
  obtain s' evs where p: "passes_multi inps s1 = Some s'" and t: "trace s' = trace s1 @ evs"
    and e: "list_all steady_event evs" and w: "written evs = concat (map frame_multi inps)"
    using Cons.IH [of s1] by blast
  have "passes_multi (inp # inps) s = Some s'" using l p by simp
  moreover have "trace s' = trace s @ (evs1 @ evs)" using t1 t by simp
  moreover have "list_all steady_event (evs1 @ evs)" using e1 e by simp
  moreover have "written (evs1 @ evs) = concat (map frame_multi (inp # inps))"
    using w1 w by simp
  ultimately show ?case by blast
qed

lemma passes_single_steady:
  "\<exists>z' evs. passes_single rnd inps z = Some z' \<and> trace z' = trace z @ evs \<and>
     calibration_factor z' = calibration_factor z \<and>
     list_all steady_event evs \<and> filter is_delay evs = [] \<and>
     written evs = concat (map (frame_single rnd (calibration_factor z)) inps)"
proof (induction inps arbitrary: z)
  case Nil
  show ?case by simp
next
  case (Cons inp inps)
  obtain z1 evs1 where l: "loop_single rnd inp z = Some z1" and t1: "trace z1 = trace z @ evs1"
    and c1: "calibration_factor z1 = calibration_factor z"
    and e1: "list_all steady_event evs1" and d1: "filter is_delay evs1 = []"
    and w1: "written evs1 = frame_single rnd (calibration_factor z) inp"
    using loop_single_steady [of rnd inp z] by blast
  obtain z' evs where p: "passes_single rnd inps z1 = Some z'" and t: "trace z' = trace z1 @ evs"
    and c: "calibration_factor z' = calibration_factor z1"
    and e: "list_all steady_event evs" and d: "filter is_delay evs = []"
    and w: "written evs = concat (map (frame_single rnd (calibration_factor z1)) inps)"
    using Cons.IH [of z1] by blast
  have "passes_single rnd (inp # inps) z = Some z'" using l p by simp
  moreover have "trace z' = trace z @ (evs1 @ evs)" using t1 t by simp
  moreover have "list_all steady_event (evs1 @ evs)" using e1 e by simp
  moreover have "filter is_delay (evs1 @ evs) = []" using d1 d by simp
  moreover have "calibration_factor z' = calibration_factor z" using c c1 by simp
  moreover have "written (evs1 @ evs) =
      concat (map (frame_single rnd (calibration_factor z)) (inp # inps))"
    using w1 w c1 by simp
  ultimately show ?case by blast
qed

lemma steady_no_m: "list_all steady_event evs \<Longrightarrow> CHR ''m'' \<notin> set (written evs)"
proof (induction evs)
  case Nil
  show ?case by simp
next
  case (Cons e evs)
  then show ?case by (cases e) simp_all
qed

lemma steady_no_tare: "list_all steady_event evs \<Longrightarrow> filter is_tare evs = []"
proof (induction evs)
  case Nil
  show ?case by simp
next
  case (Cons e evs)
  then show ?case by (cases e) simp_all
qed

lemma grams_of_zero: "grams_of rnd raw (Finite 0) = Infinite \<or> grams_of rnd raw (Finite 0) = NaN"
  by (cases "rnd (of_int raw)") (simp_all add: grams_of_def long_to_float_def)

lemma print_float_inf_nan: "print_float Infinite k = ''inf''" "print_float NaN k = ''nan''"
  by (simp_all add: print_float_def)

lemma filter_delay_polls [simp]: "filter is_delay (map (\<lambda>j. HxIsReady j (r j)) js) = []"
  by (induction js) simp_all

lemma filter_delay_channels [simp]:
  "filter is_delay (concat (map (channel_events inp) js)) = []"
  by (induction js) (simp_all add: channel_events_def)

lemma polls_only [simp]: "list_all is_poll (map (\<lambda>j. HxIsReady j (r j)) js)"
  by (induction js) simp_all

lemma polled_not_Nil: "js \<noteq> [] \<Longrightarrow> polled inp js \<noteq> []"
  by (cases js) (auto simp: polled_def)

lemma frame_line_fields_bytes:
  assumes "\<forall>v\<in>set vals. set v \<subseteq> field_chars"
  shows "\<exists>line. frame_line t vals = line @ [CHR 0x0D, CHR 0x0A] \<and>
     fields_of line = print_number t # vals \<and>
     CHR 0x0D \<notin> set line \<and> CHR 0x0A \<notin> set line"
proof -
  from frame_line_fields [OF assms, of t] obtain line where
    "frame_line t vals = line @ crlf" "fields_of line = print_number t # vals"
    "set line \<inter> set crlf = {}"
    by blast
  then show ?thesis
    by (intro exI [of _ line]) (auto simp: crlf_def)
qed

lemma grams_of_zero_Infinite:
  "rnd (of_int raw) = Finite a \<Longrightarrow> a \<noteq> 0 \<Longrightarrow> grams_of rnd raw (Finite 0) = Infinite"
  by (simp add: grams_of_def long_to_float_def)

lemma grams_of_zero_NaN:
  "rnd (of_int raw) = Finite 0 \<Longrightarrow> grams_of rnd raw (Finite 0) = NaN"
  by (simp add: grams_of_def long_to_float_def)

section \<open>Properties of the sketches\<close>

subsection \<open>Readiness Gate and frames\<close>

text \<open>
  C1. In every pass of the acquisition loop, a frame is written if and only if every
  channel reports ready at the readiness check. When all channels are ready the bytes
  written are one full frame: the timestamp and one value for each channel (four in
  the four-channel sketch, one in the single-channel sketch). When some channel is not
  ready, the pass writes no byte and calls \<^verbatim>\<open>read_average\<close> on no channel. The pass
  always returns.
\<close>

theorem gate_frame_iff_all_ready:
  "(\<exists>s'. loop_multi inp s = Some s' \<and>
       (written (new_events s s') \<noteq> [] \<longleftrightarrow> all_channels_ready inp 4) \<and>
       (if all_channels_ready inp 4
        then written (new_events s s') =
               frame_line (now inp)
                 (map (\<lambda>i. print_long (truncated_mean (raw_batch inp i 5))) [0..<4])
        else written (new_events s s') = [] \<and> filter is_read (new_events s s') = []))
   \<and> (\<exists>z'. loop_single rnd inp z = Some z' \<and>
       (written (new_events z z') \<noteq> [] \<longleftrightarrow> all_channels_ready inp 1) \<and>
       (if all_channels_ready inp 1
        then written (new_events z z') =
               frame_line (now inp)
                 [print_float (grams_of rnd (truncated_mean (raw_batch inp 0 10))
                    (calibration_factor z)) 3]
        else written (new_events z z') = [] \<and> filter is_read (new_events z z') = []))"
proof (intro conjI)
  show "\<exists>s'. loop_multi inp s = Some s' \<and>
       (written (new_events s s') \<noteq> [] \<longleftrightarrow> all_channels_ready inp 4) \<and>
       (if all_channels_ready inp 4
        then written (new_events s s') =
               frame_line (now inp)
                 (map (\<lambda>i. print_long (truncated_mean (raw_batch inp i 5))) [0..<4])
        else written (new_events s s') = [] \<and> filter is_read (new_events s s') = [])"
  proof (cases "all_channels_ready inp 4")
    case True
    from loop_multi_ready [OF True, of s] obtain s' where
      l: "loop_multi inp s = Some s'" and
      n: "new_events s s' = map (\<lambda>j. HxIsReady j True) [0..<4]
       @ [Millis (now inp), SerialWrite (print_number (now inp))]
       @ concat (map (channel_events inp) [0..<4])
       @ [SerialWrite crlf, Delay 50]"
      using new_events_append by blast
    have "written (new_events s s') = frame_line (now inp)
        (map (\<lambda>i. print_long (truncated_mean (raw_batch inp i 5))) [0..<4])"
      by (simp only: n written_multi_ready)
    then show ?thesis
      using True l by simp
  next
    case False
    from loop_multi_unready [OF False, of s] obtain s' where
      "loop_multi inp s = Some s'" and
      "new_events s s' = map (\<lambda>j. HxIsReady j (ready inp j)) (polled inp [0..<4])"
      using new_events_append by blast
    then show ?thesis
      using False by simp
  qed
next
  have r1: "all_channels_ready inp 1 = ready inp 0"
    by (simp add: all_channels_ready_def)
  show "\<exists>z'. loop_single rnd inp z = Some z' \<and>
       (written (new_events z z') \<noteq> [] \<longleftrightarrow> all_channels_ready inp 1) \<and>
       (if all_channels_ready inp 1
        then written (new_events z z') =
               frame_line (now inp)
                 [print_float (grams_of rnd (truncated_mean (raw_batch inp 0 10))
                    (calibration_factor z)) 3]
        else written (new_events z z') = [] \<and> filter is_read (new_events z z') = [])"
  proof (cases "ready inp 0")
    case True
    from loop_single_ready [OF True, of rnd z] obtain z' where
      "loop_single rnd inp z = Some z'" and
      "new_events z z' = [HxIsReady 0 True,
        HxReadAverage 0 10 (truncated_mean (raw_batch inp 0 10)),
        Millis (now inp),
        SerialWrite (print_number (now inp)),
        SerialWrite '','',
        SerialWrite (print_float
          (grams_of rnd (truncated_mean (raw_batch inp 0 10)) (calibration_factor z)) 3),
        SerialWrite crlf]"
      using new_events_append by blast
    then show ?thesis
      using True r1 by (simp add: frame_line_def crlf_def)
  next
    case False
    from loop_single_unready [OF False, of rnd z] obtain z' where
      "loop_single rnd inp z = Some z'" and
      "new_events z z' = [HxIsReady 0 False]"
      using new_events_append by blast
    then show ?thesis
      using False r1 by simp
  qed
qed

theorem gate_frame_iff_all_ready_witness:
  "all_channels_ready all_ready_input 4 \<and>
   (\<exists>s'. loop_multi all_ready_input boot_multi = Some s' \<and>
      written (new_events boot_multi s') = ''1234,100,200,300,400'' @ crlf) \<and>
   \<not> all_channels_ready partly_ready_input 4 \<and>
   (\<exists>s'. loop_multi partly_ready_input boot_multi = Some s' \<and>
      written (new_events boot_multi s') = [] \<and>
      filter is_read (new_events boot_multi s') = []) \<and>
   all_channels_ready grams_input 1 \<and>
   (\<exists>z'. loop_single Finite grams_input boot_single = Some z' \<and>
      written (new_events boot_single z') = ''1234,4.000'' @ crlf) \<and>
   \<not> all_channels_ready idle_input 1 \<and>
   (\<exists>z'. loop_single Finite idle_input boot_single = Some z' \<and>
      written (new_events boot_single z') = [] \<and>
      filter is_read (new_events boot_single z') = [])"
proof -
  have r: "all_channels_ready all_ready_input 4"
    by code_simp
  have e: "frame_line (now all_ready_input)
      (map (\<lambda>i. print_long (truncated_mean (raw_batch all_ready_input i 5))) [0..<4])
      = ''1234,100,200,300,400'' @ crlf"
    by code_simp
  have n: "\<not> all_channels_ready partly_ready_input 4"
    by code_simp
  have g: "all_channels_ready grams_input 1"
    by code_simp
  have f: "frame_line (now grams_input)
      [print_float (grams_of Finite (truncated_mean (raw_batch grams_input 0 10))
         (calibration_factor boot_single)) 3] = ''1234,4.000'' @ crlf"
    by code_simp
  have i: "\<not> all_channels_ready idle_input 1"
    by code_simp
  show ?thesis
    using gate_frame_iff_all_ready [of all_ready_input boot_multi Finite boot_single]
      gate_frame_iff_all_ready [of partly_ready_input boot_multi Finite boot_single]
      gate_frame_iff_all_ready [of grams_input boot_multi Finite boot_single]
      gate_frame_iff_all_ready [of idle_input boot_multi Finite boot_single]
      r e n g f i
    by auto
qed

subsection \<open>Sampler\<close>

text \<open>
  C2. In a pass that writes a frame, each channel is sampled by exactly one call of
  \<^verbatim>\<open>read_average\<close>, with batch size 5 on each of the four channels of the
  four-channel sketch and batch size 10 in the single-channel sketch. For every batch
  size \<open>B \<ge> 1\<close>, the Sampler over the \<open>B\<close> raw values \<open>vals\<close> that the channel
  delivers returns their arithmetic mean rounded toward zero, and logs this one call.
\<close>

theorem sampler_batch_and_mean:
  "(all_channels_ready inp 4 \<longrightarrow>
      (\<exists>s'. loop_multi inp s = Some s' \<and>
         filter is_read (new_events s s') =
           map (\<lambda>i. HxReadAverage i 5 (toward_zero (arithmetic_mean (raw_batch inp i 5))))
             [0..<4]))
   \<and> (ready inp 0 \<longrightarrow>
      (\<exists>z'. loop_single rnd inp z = Some z' \<and>
         filter is_read (new_events z z') =
           [HxReadAverage 0 10 (toward_zero (arithmetic_mean (raw_batch inp 0 10)))]))
   \<and> (1 \<le> B \<and> length vals = B \<and> (\<forall>k<B. adc inp i k = vals ! k) \<longrightarrow>
        sample vals = Some (toward_zero (arithmetic_mean vals)) \<and>
        (\<exists>b'. HX711_read_average inp i B b = Some (toward_zero (arithmetic_mean vals), b') \<and>
            new_events b b' = [HxReadAverage i B (toward_zero (arithmetic_mean vals))]))"
proof (intro conjI impI)
  have m: "\<And>j n. 0 < n \<Longrightarrow>
      truncated_mean (raw_batch inp j n) = toward_zero (arithmetic_mean (raw_batch inp j n))"
    by (rule truncated_mean_toward_zero) (simp add: raw_batch_def)
  {
    assume r: "all_channels_ready inp 4"
    from loop_multi_ready [OF r, of s] obtain s' where
      l: "loop_multi inp s = Some s'" and
      n: "new_events s s' = map (\<lambda>j. HxIsReady j True) [0..<4]
       @ [Millis (now inp), SerialWrite (print_number (now inp))]
       @ concat (map (channel_events inp) [0..<4])
       @ [SerialWrite crlf, Delay 50]"
      using new_events_append by blast
    have "filter is_read (new_events s s') =
        map (\<lambda>i. HxReadAverage i 5 (truncated_mean (raw_batch inp i 5))) [0..<4]"
      unfolding n by (simp add: filter_read_channels)
    then show "\<exists>s'. loop_multi inp s = Some s' \<and>
         filter is_read (new_events s s') =
           map (\<lambda>i. HxReadAverage i 5 (toward_zero (arithmetic_mean (raw_batch inp i 5))))
             [0..<4]"
      using l by (simp add: m)
  }
  {
    assume r: "ready inp 0"
    from loop_single_ready [OF r, of rnd z] obtain z' where
      "loop_single rnd inp z = Some z'" and
      "new_events z z' = [HxIsReady 0 True,
        HxReadAverage 0 10 (truncated_mean (raw_batch inp 0 10)),
        Millis (now inp),
        SerialWrite (print_number (now inp)),
        SerialWrite '','',
        SerialWrite (print_float
          (grams_of rnd (truncated_mean (raw_batch inp 0 10)) (calibration_factor z)) 3),
        SerialWrite crlf]"
      using new_events_append by blast
    then show "\<exists>z'. loop_single rnd inp z = Some z' \<and>
         filter is_read (new_events z z') =
           [HxReadAverage 0 10 (toward_zero (arithmetic_mean (raw_batch inp 0 10)))]"
      by (simp add: m)
  }
  {
    assume a: "1 \<le> B \<and> length vals = B \<and> (\<forall>k<B. adc inp i k = vals ! k)"
    then have ne: "vals \<noteq> []" by auto
    have rb: "raw_batch inp i B = vals"
      using a by (simp add: raw_batch_known)
    show "sample vals = Some (toward_zero (arithmetic_mean vals))"
      using ne by (simp add: sample_def truncated_mean_toward_zero)
    have "HX711_read_average inp i B b = Some (toward_zero (arithmetic_mean vals),
        record_event (HxReadAverage i B (toward_zero (arithmetic_mean vals))) b)"
      using a read_average_Some [of B inp i b] rb
      by (simp add: truncated_mean_toward_zero [OF ne])
    then show "\<exists>b'. HX711_read_average inp i B b = Some (toward_zero (arithmetic_mean vals), b') \<and>
            new_events b b' = [HxReadAverage i B (toward_zero (arithmetic_mean vals))]"
      by simp
  }
qed

theorem sampler_batch_and_mean_witness:
  "all_channels_ready all_ready_input 4 \<and>
   (\<exists>s'. loop_multi all_ready_input boot_multi = Some s' \<and>
      filter is_read (new_events boot_multi s') =
        [HxReadAverage 0 5 100, HxReadAverage 1 5 200, HxReadAverage 2 5 300,
         HxReadAverage 3 5 400]) \<and>
   ready grams_input 0 \<and>
   (\<exists>z'. loop_single Finite grams_input boot_single = Some z' \<and>
      filter is_read (new_events boot_single z') = [HxReadAverage 0 10 4000]) \<and>
   sample [- 7, 2] = Some (- 2) \<and>
   (\<exists>b'. HX711_read_average signed_input 0 2 boot_multi = Some (- 2, b') \<and>
      new_events boot_multi b' = [HxReadAverage 0 2 (- 2)])"
proof -
  have r: "all_channels_ready all_ready_input 4"
    by code_simp
  have e: "map (\<lambda>i. HxReadAverage i 5
        (toward_zero (arithmetic_mean (raw_batch all_ready_input i 5)))) [0..<4] =
      [HxReadAverage 0 5 100, HxReadAverage 1 5 200, HxReadAverage 2 5 300,
       HxReadAverage 3 5 400]"
    by code_simp
  have g: "ready grams_input 0"
    by code_simp
  have f: "toward_zero (arithmetic_mean (raw_batch grams_input 0 10)) = 4000"
    by code_simp
  have h: "(1::nat) \<le> 2 \<and> length [- 7, 2 :: int] = 2 \<and>
      (\<forall>k<2. adc signed_input 0 k = [- 7, 2] ! k)"
    by (simp add: signed_input_def less_Suc_eq numeral_2_eq_2)
  have t: "toward_zero (arithmetic_mean [- 7, 2]) = - 2"
    by code_simp
  show ?thesis
    using sampler_batch_and_mean [of all_ready_input boot_multi Finite boot_single
        2 "[- 7, 2]" 0 boot_multi]
      sampler_batch_and_mean [of grams_input boot_multi Finite boot_single
        2 "[- 7, 2]" 0 boot_multi]
      sampler_batch_and_mean [of signed_input boot_multi Finite boot_single
        2 "[- 7, 2]" 0 boot_multi]
      r e g f h t
    by (simp only:) simp
qed

subsection \<open>Unit Converter\<close>

text \<open>
  C3. In the single-channel sketch the value field of a frame is the quotient
  \<^verbatim>\<open>raw / calibration_factor\<close> printed with three decimals: the bytes written in a
  pass are the timestamp, a comma, the float printer's text of the quotient with
  digit count 3, and the line break. For a factor \<open>b \<noteq> 0\<close> the quotient is the
  platform's rounding of the exact \<open>a / b\<close>, \<open>a\<close> the raw average as a float: one
  division and nothing else. A finite value in the printer's range is printed as its
  sign, its integer part, a point and exactly three digits, the value rounded at the
  third decimal. For the raw average 4000 and the factor 1000.0 (both, and the quotient
  4, are floats) the value field is \<^verbatim>\<open>4.000\<close>.
\<close>

theorem grams_value_field:
  "(ready inp 0 \<longrightarrow>
      (\<exists>z'. loop_single rnd inp z = Some z' \<and>
         written (new_events z z') =
           print_number (now inp) @ '','' @
           print_float (grams_of rnd (truncated_mean (raw_batch inp 0 10))
             (calibration_factor z)) 3 @ crlf))
   \<and> (b \<noteq> 0 \<and> rnd (of_int raw) = Finite a \<longrightarrow>
        grams_of rnd raw (Finite b) = rnd (a / b))
   \<and> (\<bar>q\<bar> \<le> 4294967040 \<longrightarrow>
        print_float (Finite q) 3 =
          (if q < 0 then ''-'' else []) @
          print_number (nat \<lfloor>\<bar>q\<bar> * 1000 + 1 / 2\<rfloor> div 1000) @ ''.'' @
          [digit_char (nat \<lfloor>\<bar>q\<bar> * 1000 + 1 / 2\<rfloor> div 100 mod 10),
           digit_char (nat \<lfloor>\<bar>q\<bar> * 1000 + 1 / 2\<rfloor> div 10 mod 10),
           digit_char (nat \<lfloor>\<bar>q\<bar> * 1000 + 1 / 2\<rfloor> mod 10)])
   \<and> (rnd 4000 = Finite 4000 \<and> rnd 4 = Finite 4 \<and> ready inp 0 \<and>
        truncated_mean (raw_batch inp 0 10) = 4000 \<and> calibration_factor z = Finite 1000 \<longrightarrow>
        (\<exists>z'. loop_single rnd inp z = Some z' \<and>
           written (new_events z z') = print_number (now inp) @ '',4.000'' @ crlf))"
proof (intro conjI impI)
  have pass: "\<exists>z'. loop_single rnd inp z = Some z' \<and>
         written (new_events z z') =
           print_number (now inp) @ '','' @
           print_float (grams_of rnd (truncated_mean (raw_batch inp 0 10))
             (calibration_factor z)) 3 @ crlf" if r: "ready inp 0"
  proof -
    from loop_single_ready [OF r, of rnd z] obtain z' where
      "loop_single rnd inp z = Some z'" and
      "new_events z z' = [HxIsReady 0 True,
        HxReadAverage 0 10 (truncated_mean (raw_batch inp 0 10)),
        Millis (now inp),
        SerialWrite (print_number (now inp)),
        SerialWrite '','',
        SerialWrite (print_float
          (grams_of rnd (truncated_mean (raw_batch inp 0 10)) (calibration_factor z)) 3),
        SerialWrite crlf]"
      using new_events_append by blast
    then show ?thesis by simp
  qed
  show "\<exists>z'. loop_single rnd inp z = Some z' \<and>
         written (new_events z z') =
           print_number (now inp) @ '','' @
           print_float (grams_of rnd (truncated_mean (raw_batch inp 0 10))
             (calibration_factor z)) 3 @ crlf" if "ready inp 0"
    using that by (rule pass)
  show "grams_of rnd raw (Finite b) = rnd (a / b)"
    if "b \<noteq> 0 \<and> rnd (of_int raw) = Finite a"
    using that by (simp add: grams_of_Finite)
  show "print_float (Finite q) 3 =
          (if q < 0 then ''-'' else []) @
          print_number (nat \<lfloor>\<bar>q\<bar> * 1000 + 1 / 2\<rfloor> div 1000) @ ''.'' @
          [digit_char (nat \<lfloor>\<bar>q\<bar> * 1000 + 1 / 2\<rfloor> div 100 mod 10),
           digit_char (nat \<lfloor>\<bar>q\<bar> * 1000 + 1 / 2\<rfloor> div 10 mod 10),
           digit_char (nat \<lfloor>\<bar>q\<bar> * 1000 + 1 / 2\<rfloor> mod 10)]"
    if "\<bar>q\<bar> \<le> 4294967040"
    using that by (rule print_float_3)
  show "\<exists>z'. loop_single rnd inp z = Some z' \<and>
           written (new_events z z') = print_number (now inp) @ '',4.000'' @ crlf"
    if h: "rnd 4000 = Finite 4000 \<and> rnd 4 = Finite 4 \<and> ready inp 0 \<and>
        truncated_mean (raw_batch inp 0 10) = 4000 \<and> calibration_factor z = Finite 1000"
  proof -
    have "grams_of rnd 4000 (Finite 1000) = Finite 4"
      using h grams_of_Finite [of 1000 rnd 4000 4000] by simp
    then show ?thesis
      using pass h by (simp add: print_float_4)
  qed
qed

theorem grams_value_field_witness:
  "ready grams_input 0 \<and> truncated_mean (raw_batch grams_input 0 10) = 4000 \<and>
   calibration_factor boot_single = Finite 1000 \<and>
   (\<exists>z'. loop_single Finite grams_input boot_single = Some z' \<and>
      written (new_events boot_single z') = ''1234,4.000'' @ crlf) \<and>
   grams_of Finite (- 1999) (Finite 1000) = Finite (- 1999 / 1000) \<and>
   print_float (Finite (- 1999 / 1000)) 3 = ''-1.999''"
proof -
  have r: "ready grams_input 0" by code_simp
  have m: "truncated_mean (raw_batch grams_input 0 10) = 4000" by code_simp
  have c: "calibration_factor boot_single = Finite 1000" by code_simp
  have t: "print_number (now grams_input) = ''1234''" by code_simp
  have a: "\<bar>- 1999 / 1000 :: rat\<bar> \<le> 4294967040" by simp
  have d: "(if (- 1999 / 1000 :: rat) < 0 then ''-'' else []) @
          print_number (nat \<lfloor>\<bar>- 1999 / 1000 :: rat\<bar> * 1000 + 1 / 2\<rfloor> div 1000) @ ''.'' @
          [digit_char (nat \<lfloor>\<bar>- 1999 / 1000 :: rat\<bar> * 1000 + 1 / 2\<rfloor> div 100 mod 10),
           digit_char (nat \<lfloor>\<bar>- 1999 / 1000 :: rat\<bar> * 1000 + 1 / 2\<rfloor> div 10 mod 10),
           digit_char (nat \<lfloor>\<bar>- 1999 / 1000 :: rat\<bar> * 1000 + 1 / 2\<rfloor> mod 10)] = ''-1.999''"
    by code_simp
  show ?thesis
    using grams_value_field [of grams_input Finite boot_single 1000 "- 1999" "- 1999"
        "- 1999 / 1000"] r m c t a d
    by simp
qed

subsection \<open>Frame Emitter\<close>

text \<open>
  C4. Every data line is the timestamp followed by one field for each channel in
  ascending channel order, the fields separated by commas, and ends with the line
  break, the two bytes carriage return and line feed, neither of which occurs
  elsewhere in the line. Reading the fields of the line back gives the timestamp and
  the channel values in channel order, for every input and state, hence in every
  cycle. With all four channels ready and the raw averages 100, 200, 300, 400, the
  line is the timestamp followed by \<^verbatim>\<open>,100,200,300,400\<close> and the line break.
\<close>

theorem frame_field_order:
  "(all_channels_ready inp 4 \<longrightarrow>
      (\<exists>s' line. loop_multi inp s = Some s' \<and>
         written (new_events s s') = line @ [CHR 0x0D, CHR 0x0A] \<and>
         CHR 0x0D \<notin> set line \<and> CHR 0x0A \<notin> set line \<and>
         fields_of line =
           print_number (now inp) #
           map (\<lambda>i. print_long (truncated_mean (raw_batch inp i 5))) [0..<4]))
   \<and> (ready inp 0 \<longrightarrow>
      (\<exists>z' line. loop_single rnd inp z = Some z' \<and>
         written (new_events z z') = line @ [CHR 0x0D, CHR 0x0A] \<and>
         CHR 0x0D \<notin> set line \<and> CHR 0x0A \<notin> set line \<and>
         fields_of line =
           [print_number (now inp),
            print_float (grams_of rnd (truncated_mean (raw_batch inp 0 10))
              (calibration_factor z)) 3]))
   \<and> (all_channels_ready inp 4 \<and>
        map (\<lambda>i. truncated_mean (raw_batch inp i 5)) [0..<4] = [100, 200, 300, 400] \<longrightarrow>
      (\<exists>s'. loop_multi inp s = Some s' \<and>
         written (new_events s s') =
           print_number (now inp) @ '',100,200,300,400'' @ [CHR 0x0D, CHR 0x0A]))"
proof (intro conjI impI)
  assume r: "all_channels_ready inp 4"
  let ?vals = "map (\<lambda>i. print_long (truncated_mean (raw_batch inp i 5))) [0..<4]"
  obtain s' where l: "loop_multi inp s = Some s'"
    and w: "written (new_events s s') = frame_line (now inp) ?vals"
    using loop_multi_frame [OF r, of s] by blast
  have "\<forall>v\<in>set ?vals. set v \<subseteq> field_chars"
    using long_field by auto
  from frame_line_fields_bytes [OF this, of "now inp"] obtain line where
    "frame_line (now inp) ?vals = line @ [CHR 0x0D, CHR 0x0A]"
    "fields_of line = print_number (now inp) # ?vals"
    "CHR 0x0D \<notin> set line" "CHR 0x0A \<notin> set line"
    by blast
  with l w show "\<exists>s' line. loop_multi inp s = Some s' \<and>
         written (new_events s s') = line @ [CHR 0x0D, CHR 0x0A] \<and>
         CHR 0x0D \<notin> set line \<and> CHR 0x0A \<notin> set line \<and>
         fields_of line = print_number (now inp) # ?vals"
    by auto
next
  assume r: "ready inp 0"
  let ?vals = "[print_float (grams_of rnd (truncated_mean (raw_batch inp 0 10))
              (calibration_factor z)) 3]"
  obtain z' where l: "loop_single rnd inp z = Some z'"
    and w: "written (new_events z z') = frame_line (now inp) ?vals"
    using loop_single_frame [OF r, of rnd z] by blast
  have "\<forall>v\<in>set ?vals. set v \<subseteq> field_chars"
    using float_field by auto
  from frame_line_fields_bytes [OF this, of "now inp"] obtain line where
    "frame_line (now inp) ?vals = line @ [CHR 0x0D, CHR 0x0A]"
    "fields_of line = print_number (now inp) # ?vals"
    "CHR 0x0D \<notin> set line" "CHR 0x0A \<notin> set line"
    by blast
  with l w show "\<exists>z' line. loop_single rnd inp z = Some z' \<and>
         written (new_events z z') = line @ [CHR 0x0D, CHR 0x0A] \<and>
         CHR 0x0D \<notin> set line \<and> CHR 0x0A \<notin> set line \<and>
         fields_of line = [print_number (now inp),
            print_float (grams_of rnd (truncated_mean (raw_batch inp 0 10))
              (calibration_factor z)) 3]"
    by auto
next
  assume a: "all_channels_ready inp 4 \<and>
        map (\<lambda>i. truncated_mean (raw_batch inp i 5)) [0..<4] = [100, 200, 300, 400]"
  obtain s' where l: "loop_multi inp s = Some s'"
    and w: "written (new_events s s') = frame_line (now inp)
        (map (\<lambda>i. print_long (truncated_mean (raw_batch inp i 5))) [0..<4])"
    using loop_multi_frame [of inp s] a by blast
  have "map (\<lambda>i. print_long (truncated_mean (raw_batch inp i 5))) [0..<4] =
      map print_long (map (\<lambda>i. truncated_mean (raw_batch inp i 5)) [0..<4])"
    by (simp only: map_map comp_def)
  also have "\<dots> = map print_long [100, 200, 300, 400]"
    using a by simp
  also have "\<dots> = [''100'', ''200'', ''300'', ''400'']"
    by code_simp
  finally have "written (new_events s s') =
      frame_line (now inp) [''100'', ''200'', ''300'', ''400'']"
    using w by simp
  then show "\<exists>s'. loop_multi inp s = Some s' \<and>
         written (new_events s s') =
           print_number (now inp) @ '',100,200,300,400'' @ [CHR 0x0D, CHR 0x0A]"
    using l by (simp add: frame_line_def crlf_def)
qed

theorem frame_field_order_witness:
  "all_channels_ready all_ready_input 4 \<and>
   map (\<lambda>i. truncated_mean (raw_batch all_ready_input i 5)) [0..<4] = [100, 200, 300, 400] \<and>
   (\<exists>s' line. loop_multi all_ready_input boot_multi = Some s' \<and>
      written (new_events boot_multi s') = line @ [CHR 0x0D, CHR 0x0A] \<and>
      CHR 0x0D \<notin> set line \<and> CHR 0x0A \<notin> set line \<and>
      fields_of line = [''1234'', ''100'', ''200'', ''300'', ''400'']) \<and>
   (\<exists>s'. loop_multi all_ready_input boot_multi = Some s' \<and>
      written (new_events boot_multi s') =
        ''1234,100,200,300,400'' @ [CHR 0x0D, CHR 0x0A]) \<and>
   ready grams_input 0 \<and>
   (\<exists>z' line. loop_single Finite grams_input boot_single = Some z' \<and>
      written (new_events boot_single z') = line @ [CHR 0x0D, CHR 0x0A] \<and>
      CHR 0x0D \<notin> set line \<and> CHR 0x0A \<notin> set line \<and>
      fields_of line = [''1234'', ''4.000''])"
proof -
  have r: "all_channels_ready all_ready_input 4" by code_simp
  have m: "map (\<lambda>i. truncated_mean (raw_batch all_ready_input i 5)) [0..<4] =
      [100, 200, 300, 400]"
    by code_simp
  have f: "print_number (now all_ready_input) #
      map (\<lambda>i. print_long (truncated_mean (raw_batch all_ready_input i 5))) [0..<4] =
      [''1234'', ''100'', ''200'', ''300'', ''400'']"
    by code_simp
  have t: "print_number (now all_ready_input) = ''1234''" by code_simp
  have g: "ready grams_input 0" by code_simp
  have v: "[print_number (now grams_input),
      print_float (grams_of Finite (truncated_mean (raw_batch grams_input 0 10))
        (calibration_factor boot_single)) 3] = [''1234'', ''4.000'']"
    by code_simp
  show ?thesis
    using frame_field_order [of all_ready_input boot_multi Finite boot_single]
      frame_field_order [of grams_input boot_multi Finite boot_single]
      r m f t g v
    by (simp only:) auto
qed

subsection \<open>Startup Sequencer\<close>

text \<open>
  C5. In every run the startup sequence comes first and once: the log of a run is the
  log of \<^verbatim>\<open>setup()\<close> followed by events of the acquisition loop only. The startup
  sequence opens the serial port, binds each channel to its pins (8 and 9; or 2 and 3,
  4 and 5, 6 and 7, 8 and 9), waits 1000 ms (single-channel) or 2000 ms (four-channel),
  tares every channel, and writes the header row \<^verbatim>\<open>millis,grams\<close> or
  \<^verbatim>\<open>millis,raw_ch1,raw_ch2,raw_ch3,raw_ch4\<close>, in this order. The output stream is
  the header row followed by the frames of the passes, and no write of the loop holds
  the letter \<open>m\<close>, so the header row occurs once, before every data line.
\<close>

theorem startup_sequence:
  "(\<exists>s evs. run_multi inps = Some s \<and>
      trace s =
        [SerialBegin 115200, HxBegin 0 2 3, HxBegin 1 4 5, HxBegin 2 6 7, HxBegin 3 8 9,
         Delay 2000, HxTare 0, HxTare 1, HxTare 2, HxTare 3,
         SerialWrite ''millis,raw_ch1,raw_ch2,raw_ch3,raw_ch4'', SerialWrite crlf] @ evs \<and>
      list_all steady_event evs \<and>
      sink s = ''millis,raw_ch1,raw_ch2,raw_ch3,raw_ch4'' @ crlf @
        concat (map frame_multi inps))
   \<and> (\<exists>z evs. run_single rnd inps = Some z \<and>
      trace z =
        [SerialBegin 115200, HxBegin 0 8 9, Delay 1000, HxTare 0,
         SerialWrite ''millis,grams'', SerialWrite crlf] @ evs \<and>
      list_all steady_event evs \<and>
      sink z = ''millis,grams'' @ crlf @
        concat (map (frame_single rnd (Finite 1000)) inps))"
proof (intro conjI)
  let ?s0 = "setup_multi boot_multi"
  obtain s evs where p: "passes_multi inps ?s0 = Some s" and t: "trace s = trace ?s0 @ evs"
    and e: "list_all steady_event evs" and w: "written evs = concat (map frame_multi inps)"
    using passes_multi_steady [of inps ?s0] by blast
  have t0: "trace ?s0 =
        [SerialBegin 115200, HxBegin 0 2 3, HxBegin 1 4 5, HxBegin 2 6 7, HxBegin 3 8 9,
         Delay 2000, HxTare 0, HxTare 1, HxTare 2, HxTare 3,
         SerialWrite ''millis,raw_ch1,raw_ch2,raw_ch3,raw_ch4'', SerialWrite crlf]"
    by (simp add: setup_multi_trace boot_multi_def)
  have k: "sink s = ''millis,raw_ch1,raw_ch2,raw_ch3,raw_ch4'' @ crlf @
      concat (map frame_multi inps)"
    unfolding sink_def t t0 written_append w by simp
  show "\<exists>s evs. run_multi inps = Some s \<and>
      trace s =
        [SerialBegin 115200, HxBegin 0 2 3, HxBegin 1 4 5, HxBegin 2 6 7, HxBegin 3 8 9,
         Delay 2000, HxTare 0, HxTare 1, HxTare 2, HxTare 3,
         SerialWrite ''millis,raw_ch1,raw_ch2,raw_ch3,raw_ch4'', SerialWrite crlf] @ evs \<and>
      list_all steady_event evs \<and>
      sink s = ''millis,raw_ch1,raw_ch2,raw_ch3,raw_ch4'' @ crlf @
        concat (map frame_multi inps)"
  proof (intro exI conjI)
    show "run_multi inps = Some s" using p by (simp add: run_multi_def)
    show "trace s =
        [SerialBegin 115200, HxBegin 0 2 3, HxBegin 1 4 5, HxBegin 2 6 7, HxBegin 3 8 9,
         Delay 2000, HxTare 0, HxTare 1, HxTare 2, HxTare 3,
         SerialWrite ''millis,raw_ch1,raw_ch2,raw_ch3,raw_ch4'', SerialWrite crlf] @ evs"
      using t t0 by simp
    show "list_all steady_event evs" by (rule e)
    show "sink s = ''millis,raw_ch1,raw_ch2,raw_ch3,raw_ch4'' @ crlf @
        concat (map frame_multi inps)"
      by (rule k)
  qed
next
  let ?z0 = "setup_single boot_single"
  have c0: "calibration_factor ?z0 = Finite 1000"
    by (simp add: setup_single_factor boot_single_def)
  obtain z evs where p: "passes_single rnd inps ?z0 = Some z" and t: "trace z = trace ?z0 @ evs"
    and e: "list_all steady_event evs"
    and w: "written evs = concat (map (frame_single rnd (Finite 1000)) inps)"
    using passes_single_steady [of rnd inps ?z0] unfolding c0 by blast
  have t0: "trace ?z0 =
        [SerialBegin 115200, HxBegin 0 8 9, Delay 1000, HxTare 0,
         SerialWrite ''millis,grams'', SerialWrite crlf]"
    by (simp add: setup_single_trace boot_single_def)
  have k: "sink z = ''millis,grams'' @ crlf @
      concat (map (frame_single rnd (Finite 1000)) inps)"
    unfolding sink_def t t0 written_append w by simp
  show "\<exists>z evs. run_single rnd inps = Some z \<and>
      trace z =
        [SerialBegin 115200, HxBegin 0 8 9, Delay 1000, HxTare 0,
         SerialWrite ''millis,grams'', SerialWrite crlf] @ evs \<and>
      list_all steady_event evs \<and>
      sink z = ''millis,grams'' @ crlf @
        concat (map (frame_single rnd (Finite 1000)) inps)"
  proof (intro exI conjI)
    show "run_single rnd inps = Some z" using p by (simp add: run_single_def)
    show "trace z =
        [SerialBegin 115200, HxBegin 0 8 9, Delay 1000, HxTare 0,
         SerialWrite ''millis,grams'', SerialWrite crlf] @ evs"
      using t t0 by simp
    show "list_all steady_event evs" by (rule e)
    show "sink z = ''millis,grams'' @ crlf @
        concat (map (frame_single rnd (Finite 1000)) inps)"
      by (rule k)
  qed
qed

theorem startup_sequence_witness:
  "(\<exists>s. run_multi [partly_ready_input, all_ready_input] = Some s \<and>
      take 12 (trace s) =
        [SerialBegin 115200, HxBegin 0 2 3, HxBegin 1 4 5, HxBegin 2 6 7, HxBegin 3 8 9,
         Delay 2000, HxTare 0, HxTare 1, HxTare 2, HxTare 3,
         SerialWrite ''millis,raw_ch1,raw_ch2,raw_ch3,raw_ch4'', SerialWrite crlf] \<and>
      list_all steady_event (drop 12 (trace s)) \<and>
      sink s = ''millis,raw_ch1,raw_ch2,raw_ch3,raw_ch4'' @ crlf @
        ''1234,100,200,300,400'' @ crlf) \<and>
   (\<exists>z. run_single Finite [idle_input, grams_input] = Some z \<and>
      take 6 (trace z) =
        [SerialBegin 115200, HxBegin 0 8 9, Delay 1000, HxTare 0,
         SerialWrite ''millis,grams'', SerialWrite crlf] \<and>
      list_all steady_event (drop 6 (trace z)) \<and>
      sink z = ''millis,grams'' @ crlf @ ''1234,4.000'' @ crlf)"
proof (intro conjI)
  have m: "concat (map frame_multi [partly_ready_input, all_ready_input]) =
      ''1234,100,200,300,400'' @ crlf"
    by code_simp
  obtain s evs where r: "run_multi [partly_ready_input, all_ready_input] = Some s"
    and t: "trace s =
        [SerialBegin 115200, HxBegin 0 2 3, HxBegin 1 4 5, HxBegin 2 6 7, HxBegin 3 8 9,
         Delay 2000, HxTare 0, HxTare 1, HxTare 2, HxTare 3,
         SerialWrite ''millis,raw_ch1,raw_ch2,raw_ch3,raw_ch4'', SerialWrite crlf] @ evs"
    and e: "list_all steady_event evs"
    and k: "sink s = ''millis,raw_ch1,raw_ch2,raw_ch3,raw_ch4'' @ crlf @
        concat (map frame_multi [partly_ready_input, all_ready_input])"
    using startup_sequence [of "[partly_ready_input, all_ready_input]" Finite] by blast
  show "\<exists>s. run_multi [partly_ready_input, all_ready_input] = Some s \<and>
      take 12 (trace s) =
        [SerialBegin 115200, HxBegin 0 2 3, HxBegin 1 4 5, HxBegin 2 6 7, HxBegin 3 8 9,
         Delay 2000, HxTare 0, HxTare 1, HxTare 2, HxTare 3,
         SerialWrite ''millis,raw_ch1,raw_ch2,raw_ch3,raw_ch4'', SerialWrite crlf] \<and>
      list_all steady_event (drop 12 (trace s)) \<and>
      sink s = ''millis,raw_ch1,raw_ch2,raw_ch3,raw_ch4'' @ crlf @
        ''1234,100,200,300,400'' @ crlf"
  proof (intro exI conjI)
    show "run_multi [partly_ready_input, all_ready_input] = Some s" by (rule r)
    show "take 12 (trace s) =
        [SerialBegin 115200, HxBegin 0 2 3, HxBegin 1 4 5, HxBegin 2 6 7, HxBegin 3 8 9,
         Delay 2000, HxTare 0, HxTare 1, HxTare 2, HxTare 3,
         SerialWrite ''millis,raw_ch1,raw_ch2,raw_ch3,raw_ch4'', SerialWrite crlf]"
      unfolding t by simp
    show "list_all steady_event (drop 12 (trace s))"
      unfolding t using e by simp
    show "sink s = ''millis,raw_ch1,raw_ch2,raw_ch3,raw_ch4'' @ crlf @
        ''1234,100,200,300,400'' @ crlf"
      unfolding k m by (rule refl)
  qed
next
  have g: "concat (map (frame_single Finite (Finite 1000)) [idle_input, grams_input]) =
      ''1234,4.000'' @ crlf"
    by code_simp
  obtain z evs where r: "run_single Finite [idle_input, grams_input] = Some z"
    and t: "trace z =
        [SerialBegin 115200, HxBegin 0 8 9, Delay 1000, HxTare 0,
         SerialWrite ''millis,grams'', SerialWrite crlf] @ evs"
    and e: "list_all steady_event evs"
    and k: "sink z = ''millis,grams'' @ crlf @
        concat (map (frame_single Finite (Finite 1000)) [idle_input, grams_input])"
    using startup_sequence [of "[idle_input, grams_input]" Finite] by blast
  show "\<exists>z. run_single Finite [idle_input, grams_input] = Some z \<and>
      take 6 (trace z) =
        [SerialBegin 115200, HxBegin 0 8 9, Delay 1000, HxTare 0,
         SerialWrite ''millis,grams'', SerialWrite crlf] \<and>
      list_all steady_event (drop 6 (trace z)) \<and>
      sink z = ''millis,grams'' @ crlf @ ''1234,4.000'' @ crlf"
  proof (intro exI conjI)
    show "run_single Finite [idle_input, grams_input] = Some z" by (rule r)
    show "take 6 (trace z) =
        [SerialBegin 115200, HxBegin 0 8 9, Delay 1000, HxTare 0,
         SerialWrite ''millis,grams'', SerialWrite crlf]"
      unfolding t by simp
    show "list_all steady_event (drop 6 (trace z))"
      unfolding t using e by simp
    show "sink z = ''millis,grams'' @ crlf @ ''1234,4.000'' @ crlf"
      unfolding k g by (rule refl)
  qed
qed

subsection \<open>Zero calibration factor\<close>

text \<open>
  C6, as amended. With a calibration factor equal to 0 the conversion
  \<^verbatim>\<open>raw / calibration_factor\<close> does not fail: the sketch checks nothing, the quotient
  is an infinity when the raw value as a float is not zero and NaN when it is zero, and
  the pass writes the frame with the text \<^verbatim>\<open>inf\<close>, respectively \<^verbatim>\<open>nan\<close>, as
  its value field, followed by the line break. In the reference single-channel configuration the
  factor is 1000.0 in every state a run reaches, neither \<^verbatim>\<open>setup()\<close> nor
  \<^verbatim>\<open>loop()\<close> writing it, so that there the converter of the spec does not fail and
  agrees with the sketch.
\<close>

theorem zero_factor_not_checked:
  "(rnd (of_int raw) = Finite a \<and> a \<noteq> 0 \<longrightarrow> grams_of rnd raw (Finite 0) = Infinite)
   \<and> (rnd (of_int raw) = Finite 0 \<longrightarrow> grams_of rnd raw (Finite 0) = NaN)
   \<and> (grams_of rnd raw (Finite 0) = Infinite \<or> grams_of rnd raw (Finite 0) = NaN)
   \<and> (ready inp 0 \<and> calibration_factor z = Finite 0 \<and>
        rnd (of_int (truncated_mean (raw_batch inp 0 10))) = Finite m \<longrightarrow>
        (\<exists>z'. loop_single rnd inp z = Some z' \<and>
           written (new_events z z') =
             print_number (now inp) @ (if m = 0 then '',nan'' else '',inf'') @
             [CHR 0x0D, CHR 0x0A]))
   \<and> (ready inp 0 \<and> calibration_factor z = Finite 0 \<longrightarrow>
        (\<exists>z'. loop_single rnd inp z = Some z' \<and>
           (written (new_events z z') = print_number (now inp) @ '',inf'' @ crlf \<or>
            written (new_events z z') = print_number (now inp) @ '',nan'' @ crlf)))
   \<and> (\<exists>z. run_single rnd inps = Some z \<and> calibration_factor z = Finite 1000 \<and>
        toPhysical_spec rnd raw (calibration_factor z) =
          Inr (grams_of rnd raw (calibration_factor z)))"
proof (intro conjI impI)
  show "grams_of rnd raw (Finite 0) = Infinite"
    if "rnd (of_int raw) = Finite a \<and> a \<noteq> 0"
    using that by (simp add: grams_of_zero_Infinite)
  show "grams_of rnd raw (Finite 0) = NaN" if "rnd (of_int raw) = Finite 0"
    using that by (rule grams_of_zero_NaN)
  show "grams_of rnd raw (Finite 0) = Infinite \<or> grams_of rnd raw (Finite 0) = NaN"
    by (rule grams_of_zero)
  show "\<exists>z'. loop_single rnd inp z = Some z' \<and>
           written (new_events z z') =
             print_number (now inp) @ (if m = 0 then '',nan'' else '',inf'') @
             [CHR 0x0D, CHR 0x0A]"
    if a: "ready inp 0 \<and> calibration_factor z = Finite 0 \<and>
        rnd (of_int (truncated_mean (raw_batch inp 0 10))) = Finite m"
  proof -
    obtain z' where l: "loop_single rnd inp z = Some z'"
      and w: "written (new_events z z') = frame_line (now inp)
          [print_float (grams_of rnd (truncated_mean (raw_batch inp 0 10)) (Finite 0)) 3]"
      using loop_single_frame [of inp rnd z] a by auto
    have "print_float (grams_of rnd (truncated_mean (raw_batch inp 0 10)) (Finite 0)) 3 =
        (if m = 0 then ''nan'' else ''inf'')"
      using a grams_of_zero_Infinite [of rnd "truncated_mean (raw_batch inp 0 10)" m]
        grams_of_zero_NaN [of rnd "truncated_mean (raw_batch inp 0 10)"]
      by (auto simp: print_float_inf_nan)
    then have "written (new_events z z') =
        print_number (now inp) @ (if m = 0 then '',nan'' else '',inf'') @ [CHR 0x0D, CHR 0x0A]"
      using w by (simp add: frame_line_def crlf_def)
    with l show ?thesis by blast
  qed
  show "\<exists>z'. loop_single rnd inp z = Some z' \<and>
           (written (new_events z z') = print_number (now inp) @ '',inf'' @ crlf \<or>
            written (new_events z z') = print_number (now inp) @ '',nan'' @ crlf)"
    if a: "ready inp 0 \<and> calibration_factor z = Finite 0"
  proof -
    obtain z' where l: "loop_single rnd inp z = Some z'"
      and w: "written (new_events z z') = frame_line (now inp)
          [print_float (grams_of rnd (truncated_mean (raw_batch inp 0 10)) (Finite 0)) 3]"
      using loop_single_frame [of inp rnd z] a by auto
    from grams_of_zero [of rnd "truncated_mean (raw_batch inp 0 10)"]
    have "written (new_events z z') = print_number (now inp) @ '',inf'' @ crlf \<or>
        written (new_events z z') = print_number (now inp) @ '',nan'' @ crlf"
      using w by (auto simp: frame_line_def print_float_inf_nan)
    with l show ?thesis by blast
  qed
  show "\<exists>z. run_single rnd inps = Some z \<and> calibration_factor z = Finite 1000 \<and>
        toPhysical_spec rnd raw (calibration_factor z) =
          Inr (grams_of rnd raw (calibration_factor z))"
  proof -
    let ?z0 = "setup_single boot_single"
    have c0: "calibration_factor ?z0 = Finite 1000"
      by (simp add: setup_single_factor boot_single_def)
    obtain z where p: "passes_single rnd inps ?z0 = Some z"
      and c: "calibration_factor z = calibration_factor ?z0"
      using passes_single_steady [of rnd inps ?z0] by blast
    have "toPhysical_spec rnd raw (Finite 1000) = Inr (grams_of rnd raw (Finite 1000))"
      by (simp add: toPhysical_spec_def grams_of_def)
    then show ?thesis
      using p c c0 by (simp add: run_single_def)
  qed
qed

theorem zero_factor_not_checked_witness:
  "grams_of Finite 4000 (Finite 0) = Infinite \<and>
   grams_of Finite 0 (Finite 0) = NaN \<and>
   ready grams_input 0 \<and> calibration_factor zero_factor_sketch = Finite 0 \<and>
   (\<exists>z'. loop_single Finite grams_input zero_factor_sketch = Some z' \<and>
      written (new_events zero_factor_sketch z') = ''1234,inf'' @ [CHR 0x0D, CHR 0x0A]) \<and>
   ready zero_raw_input 0 \<and>
   (\<exists>z'. loop_single Finite zero_raw_input zero_factor_sketch = Some z' \<and>
      written (new_events zero_factor_sketch z') = ''1234,nan'' @ [CHR 0x0D, CHR 0x0A]) \<and>
   (\<exists>z. run_single Finite [grams_input] = Some z \<and> calibration_factor z = Finite 1000 \<and>
      toPhysical_spec Finite 4000 (calibration_factor z) = Inr (Finite 4))"
proof -
  have r: "ready grams_input 0" "ready zero_raw_input 0" by code_simp+
  have c: "calibration_factor zero_factor_sketch = Finite 0" by code_simp
  have m: "truncated_mean (raw_batch grams_input 0 10) = 4000"
    "truncated_mean (raw_batch zero_raw_input 0 10) = 0"
    by code_simp+
  have n: "print_number (now grams_input) = ''1234''"
    "print_number (now zero_raw_input) = ''1234''"
    by code_simp+
  have g: "grams_of Finite 4000 (Finite 1000) = Finite 4" by code_simp
  have h1: "Finite (of_int 4000) = Finite 4000 \<and> (4000::rat) \<noteq> 0" by simp
  have h2: "Finite (of_int 0) = Finite (0::rat)" by simp
  have i: "grams_of Finite 4000 (Finite 0) = Infinite"
    using zero_factor_not_checked [of Finite 4000 4000 grams_input zero_factor_sketch 4000
        "[grams_input]"] h1 by blast
  have k: "grams_of Finite 0 (Finite 0) = NaN"
    using zero_factor_not_checked [of Finite 0 0 zero_raw_input zero_factor_sketch 0
        "[grams_input]"] h2 by blast
  have a: "\<exists>z'. loop_single Finite grams_input zero_factor_sketch = Some z' \<and>
      written (new_events zero_factor_sketch z') = ''1234,inf'' @ [CHR 0x0D, CHR 0x0A]"
    using zero_factor_not_checked [of Finite 4000 4000 grams_input zero_factor_sketch 4000
        "[grams_input]"] r c m n by simp
  have b: "\<exists>z'. loop_single Finite zero_raw_input zero_factor_sketch = Some z' \<and>
      written (new_events zero_factor_sketch z') = ''1234,nan'' @ [CHR 0x0D, CHR 0x0A]"
    using zero_factor_not_checked [of Finite 0 0 zero_raw_input zero_factor_sketch 0
        "[grams_input]"] r c m n by simp
  have d: "\<exists>z. run_single Finite [grams_input] = Some z \<and> calibration_factor z = Finite 1000 \<and>
      toPhysical_spec Finite 4000 (calibration_factor z) = Inr (Finite 4)"
    using zero_factor_not_checked [of Finite 4000 4000 grams_input zero_factor_sketch 4000
        "[grams_input]"] g by auto
  show ?thesis
    using i k r c a b d by blast
qed

text \<open>
  The sentence of the spec on a zero factor does not hold of the sketch: with the factor
  0 and the raw average 4000, the converter of the spec fails with \<open>DivisionByZero\<close>,
  whereas the sketch computes an infinity and writes the line \<^verbatim>\<open>1234,inf\<close>.
\<close>

theorem zero_factor_counterexample:
  "toPhysical_spec Finite 4000 (Finite 0) = Inl DivisionByZero \<and>
   grams_of Finite 4000 (calibration_factor zero_factor_sketch) = Infinite \<and>
   map_option sink (loop_single Finite grams_input zero_factor_sketch) =
     Some (''1234,inf'' @ [CHR 0x0D, CHR 0x0A])"
  by code_simp


subsection \<open>Calibration State\<close>

text \<open>
  C7. The calibration state is fixed at startup and never changes afterwards. The
  calibration factor holds 1000.0 from boot on and in every state a run reaches. Each
  channel is tared exactly once, in \<^verbatim>\<open>setup()\<close> after the stabilization delay, and
  nowhere in the rest of a run. No pass of either acquisition loop, from whatever
  state, writes the calibration factor or calls \<^verbatim>\<open>tare()\<close>.
\<close>

theorem calibration_state_fixed:
  "calibration_factor boot_single = Finite 1000 \<and>
   filter (\<lambda>e. is_delay e \<or> is_tare e) (trace (setup_single boot_single)) =
     [Delay 1000, HxTare 0] \<and>
   filter (\<lambda>e. is_delay e \<or> is_tare e) (trace (setup_multi boot_multi)) =
     [Delay 2000, HxTare 0, HxTare 1, HxTare 2, HxTare 3] \<and>
   (\<exists>z evs. run_single rnd inps = Some z \<and> calibration_factor z = Finite 1000 \<and>
      trace z = trace (setup_single boot_single) @ evs \<and> filter is_tare evs = []) \<and>
   (\<exists>s evs. run_multi inps = Some s \<and>
      trace s = trace (setup_multi boot_multi) @ evs \<and> filter is_tare evs = []) \<and>
   (\<exists>z'. loop_single rnd inp z = Some z' \<and> calibration_factor z' = calibration_factor z \<and>
      filter is_tare (new_events z z') = []) \<and>
   (\<exists>s'. loop_multi inp s = Some s' \<and> filter is_tare (new_events s s') = [])"
proof (intro conjI)
  show "calibration_factor boot_single = Finite 1000"
    by (simp add: boot_single_def)
  show "filter (\<lambda>e. is_delay e \<or> is_tare e) (trace (setup_single boot_single)) =
     [Delay 1000, HxTare 0]"
    by (simp add: setup_single_trace boot_single_def)
  show "filter (\<lambda>e. is_delay e \<or> is_tare e) (trace (setup_multi boot_multi)) =
     [Delay 2000, HxTare 0, HxTare 1, HxTare 2, HxTare 3]"
    by (simp add: setup_multi_trace boot_multi_def)
  show "\<exists>z evs. run_single rnd inps = Some z \<and> calibration_factor z = Finite 1000 \<and>
      trace z = trace (setup_single boot_single) @ evs \<and> filter is_tare evs = []"
  proof -
    let ?z0 = "setup_single boot_single"
    have c0: "calibration_factor ?z0 = Finite 1000"
      by (simp add: setup_single_factor boot_single_def)
    obtain z evs where "passes_single rnd inps ?z0 = Some z"
      "calibration_factor z = calibration_factor ?z0" "trace z = trace ?z0 @ evs"
      "list_all steady_event evs"
      using passes_single_steady [of rnd inps ?z0] by blast
    then show ?thesis
      using c0 steady_no_tare by (auto simp: run_single_def)
  qed
  show "\<exists>s evs. run_multi inps = Some s \<and>
      trace s = trace (setup_multi boot_multi) @ evs \<and> filter is_tare evs = []"
  proof -
    let ?s0 = "setup_multi boot_multi"
    obtain s evs where "passes_multi inps ?s0 = Some s" "trace s = trace ?s0 @ evs"
      "list_all steady_event evs"
      using passes_multi_steady [of inps ?s0] by blast
    then show ?thesis
      using steady_no_tare by (auto simp: run_multi_def)
  qed
  show "\<exists>z'. loop_single rnd inp z = Some z' \<and> calibration_factor z' = calibration_factor z \<and>
      filter is_tare (new_events z z') = []"
  proof -
    obtain z' evs where "loop_single rnd inp z = Some z'"
      "calibration_factor z' = calibration_factor z" "trace z' = trace z @ evs"
      "list_all steady_event evs"
      using loop_single_steady [of rnd inp z] by blast
    then show ?thesis
      using steady_no_tare by auto
  qed
  show "\<exists>s'. loop_multi inp s = Some s' \<and> filter is_tare (new_events s s') = []"
  proof -
    obtain s' evs where "loop_multi inp s = Some s'" "trace s' = trace s @ evs"
      "list_all steady_event evs"
      using loop_multi_steady [of inp s] by blast
    then show ?thesis
      using steady_no_tare by auto
  qed
qed

theorem calibration_state_fixed_witness:
  "(\<exists>z. run_single Finite [idle_input, grams_input, grams_input] = Some z \<and>
      calibration_factor z = Finite 1000 \<and>
      filter is_tare (trace z) = [HxTare 0]) \<and>
   (\<exists>s. run_multi [partly_ready_input, all_ready_input] = Some s \<and>
      filter is_tare (trace s) = [HxTare 0, HxTare 1, HxTare 2, HxTare 3])"
proof (intro conjI)
  note c = calibration_state_fixed [of Finite "[idle_input, grams_input, grams_input]"
      idle_input boot_single boot_multi]
  from c obtain z evs where
    "run_single Finite [idle_input, grams_input, grams_input] = Some z"
    "calibration_factor z = Finite 1000"
    "trace z = trace (setup_single boot_single) @ evs" "filter is_tare evs = []"
    by blast
  then show "\<exists>z. run_single Finite [idle_input, grams_input, grams_input] = Some z \<and>
      calibration_factor z = Finite 1000 \<and>
      filter is_tare (trace z) = [HxTare 0]"
    by (simp add: setup_single_trace boot_single_def)
next
  note c = calibration_state_fixed [of Finite "[partly_ready_input, all_ready_input]"
      idle_input boot_single boot_multi]
  from c obtain s evs where
    "run_multi [partly_ready_input, all_ready_input] = Some s"
    "trace s = trace (setup_multi boot_multi) @ evs" "filter is_tare evs = []"
    by blast
  then show "\<exists>s. run_multi [partly_ready_input, all_ready_input] = Some s \<and>
      filter is_tare (trace s) = [HxTare 0, HxTare 1, HxTare 2, HxTare 3]"
    by (simp add: setup_multi_trace boot_multi_def)
qed

subsection \<open>Pacing delay\<close>

text \<open>
  C8. The 50 ms pacing delay belongs to the four-channel sketch only. No pass of the
  single-channel loop calls \<^verbatim>\<open>delay\<close>, and a run of the single-channel sketch has no
  delay after \<^verbatim>\<open>setup()\<close>. A pass of the four-channel loop that finds all channels
  ready ends with the line break followed by \<^verbatim>\<open>delay(50)\<close>, its only delay, and every
  delay of a four-channel run after \<^verbatim>\<open>setup()\<close> is this 50 ms delay.
\<close>

theorem pacing_delay_only_multi:
  "(\<exists>z'. loop_single rnd inp z = Some z' \<and> filter is_delay (new_events z z') = [])
   \<and> (\<exists>z evs. run_single rnd inps = Some z \<and>
        trace z = trace (setup_single boot_single) @ evs \<and> filter is_delay evs = [])
   \<and> (all_channels_ready inp 4 \<longrightarrow>
        (\<exists>s' evs. loop_multi inp s = Some s' \<and>
           new_events s s' = evs @ [SerialWrite crlf, Delay 50] \<and>
           filter is_delay evs = []))
   \<and> (\<exists>s evs. run_multi inps = Some s \<and>
        trace s = trace (setup_multi boot_multi) @ evs \<and>
        list_all (\<lambda>e. e = Delay 50) (filter is_delay evs))"
proof (intro conjI impI)
  show "\<exists>z'. loop_single rnd inp z = Some z' \<and> filter is_delay (new_events z z') = []"
  proof -
    obtain z' evs where "loop_single rnd inp z = Some z'" "trace z' = trace z @ evs"
      "filter is_delay evs = []"
      using loop_single_steady [of rnd inp z] by blast
    then show ?thesis by auto
  qed
  show "\<exists>z evs. run_single rnd inps = Some z \<and>
        trace z = trace (setup_single boot_single) @ evs \<and> filter is_delay evs = []"
  proof -
    let ?z0 = "setup_single boot_single"
    obtain z evs where "passes_single rnd inps ?z0 = Some z" "trace z = trace ?z0 @ evs"
      "filter is_delay evs = []"
      using passes_single_steady [of rnd inps ?z0] by blast
    then show ?thesis by (auto simp: run_single_def)
  qed
  show "\<exists>s' evs. loop_multi inp s = Some s' \<and>
           new_events s s' = evs @ [SerialWrite crlf, Delay 50] \<and>
           filter is_delay evs = []" if r: "all_channels_ready inp 4"
  proof -
    let ?evs = "map (\<lambda>j. HxIsReady j True) [0..<4]
       @ [Millis (now inp), SerialWrite (print_number (now inp))]
       @ concat (map (channel_events inp) [0..<4])"
    from loop_multi_ready [OF r, of s] obtain s' where
      l: "loop_multi inp s = Some s'" and
      n: "new_events s s' = ?evs @ [SerialWrite crlf, Delay 50]"
      using new_events_append by fastforce
    have "filter is_delay ?evs = []" by simp
    with l n show ?thesis by blast
  qed
  show "\<exists>s evs. run_multi inps = Some s \<and>
        trace s = trace (setup_multi boot_multi) @ evs \<and>
        list_all (\<lambda>e. e = Delay 50) (filter is_delay evs)"
  proof -
    let ?s0 = "setup_multi boot_multi"
    obtain s evs where p: "passes_multi inps ?s0 = Some s" and t: "trace s = trace ?s0 @ evs"
      and e: "list_all steady_event evs"
      using passes_multi_steady [of inps ?s0] by blast
    have "list_all (\<lambda>e. e = Delay 50) (filter is_delay evs)"
      using e
    proof (induction evs)
      case Nil
      show ?case by simp
    next
      case (Cons e evs)
      then show ?case by (cases e) simp_all
    qed
    with p t show ?thesis by (auto simp: run_multi_def)
  qed
qed

theorem pacing_delay_only_multi_witness:
  "(\<exists>z'. loop_single Finite grams_input boot_single = Some z' \<and>
      filter is_delay (new_events boot_single z') = []) \<and>
   all_channels_ready all_ready_input 4 \<and>
   (\<exists>s'. loop_multi all_ready_input boot_multi = Some s' \<and>
      filter is_delay (new_events boot_multi s') = [Delay 50] \<and>
      last (new_events boot_multi s') = Delay 50)"
proof (intro conjI)
  note p = pacing_delay_only_multi [of Finite grams_input boot_single "[]" boot_multi]
  show "\<exists>z'. loop_single Finite grams_input boot_single = Some z' \<and>
      filter is_delay (new_events boot_single z') = []"
    using p by blast
  show r: "all_channels_ready all_ready_input 4" by code_simp
  note q = pacing_delay_only_multi [of Finite all_ready_input boot_single "[]" boot_multi]
  from q r obtain s' evs where "loop_multi all_ready_input boot_multi = Some s'"
    "new_events boot_multi s' = evs @ [SerialWrite crlf, Delay 50]" "filter is_delay evs = []"
    by blast
  then show "\<exists>s'. loop_multi all_ready_input boot_multi = Some s' \<and>
      filter is_delay (new_events boot_multi s') = [Delay 50] \<and>
      last (new_events boot_multi s') = Delay 50"
    by simp
qed


subsection \<open>Where the timestamp is taken\<close>

text \<open>
  C9. In the single-channel sketch \<^verbatim>\<open>millis()\<close> is read after the averaged read of
  10 samples has returned: a frame-writing pass begins with the readiness poll, the
  \<^verbatim>\<open>read_average(10)\<close> call and then \<^verbatim>\<open>millis()\<close>, and reads nothing afterwards.
  In the four-channel sketch \<^verbatim>\<open>millis()\<close> is read and the timestamp written before
  any averaged read: only readiness polls come before them, and the four
  \<^verbatim>\<open>read_average(5)\<close> calls, channel 0 to 3, all come after.
\<close>

theorem timestamp_capture_point:
  "(ready inp 0 \<longrightarrow>
      (\<exists>z' post. loop_single rnd inp z = Some z' \<and>
         new_events z z' =
           [HxIsReady 0 True, HxReadAverage 0 10 (truncated_mean (raw_batch inp 0 10)),
            Millis (now inp)] @ post \<and>
         filter is_read post = [] \<and> filter is_millis post = []))
   \<and> (all_channels_ready inp 4 \<longrightarrow>
      (\<exists>s' pre post. loop_multi inp s = Some s' \<and>
         new_events s s' =
           pre @ [Millis (now inp), SerialWrite (print_number (now inp))] @ post \<and>
         list_all is_poll pre \<and>
         filter is_read post =
           map (\<lambda>i. HxReadAverage i 5 (truncated_mean (raw_batch inp i 5))) [0..<4] \<and>
         filter is_millis post = []))"
proof (intro conjI impI)
  assume r: "ready inp 0"
  let ?post = "[SerialWrite (print_number (now inp)),
        SerialWrite '','',
        SerialWrite (print_float
          (grams_of rnd (truncated_mean (raw_batch inp 0 10)) (calibration_factor z)) 3),
        SerialWrite crlf]"
  from loop_single_ready [OF r, of rnd z] obtain z' where
    l: "loop_single rnd inp z = Some z'" and
    n: "new_events z z' = [HxIsReady 0 True,
        HxReadAverage 0 10 (truncated_mean (raw_batch inp 0 10)),
        Millis (now inp)] @ ?post"
    using new_events_append by fastforce
  have "filter is_read ?post = [] \<and> filter is_millis ?post = []" by simp
  with l n show "\<exists>z' post. loop_single rnd inp z = Some z' \<and>
         new_events z z' =
           [HxIsReady 0 True, HxReadAverage 0 10 (truncated_mean (raw_batch inp 0 10)),
            Millis (now inp)] @ post \<and>
         filter is_read post = [] \<and> filter is_millis post = []"
    by blast
next
  assume r: "all_channels_ready inp 4"
  let ?pre = "map (\<lambda>j. HxIsReady j True) [0..<4]"
  let ?post = "concat (map (channel_events inp) [0..<4]) @ [SerialWrite crlf, Delay 50]"
  from loop_multi_ready [OF r, of s] obtain s' where
    l: "loop_multi inp s = Some s'" and
    n: "new_events s s' =
      ?pre @ [Millis (now inp), SerialWrite (print_number (now inp))] @ ?post"
    using new_events_append by fastforce
  have m: "filter is_millis (concat (map (channel_events inp) js)) = []" for js
    by (induction js) (simp_all add: channel_events_def)
  have "list_all is_poll ?pre" by simp
  moreover have "filter is_read ?post =
      map (\<lambda>i. HxReadAverage i 5 (truncated_mean (raw_batch inp i 5))) [0..<4]"
    by (simp add: filter_read_channels)
  moreover have "filter is_millis ?post = []"
    by (simp add: m)
  ultimately show "\<exists>s' pre post. loop_multi inp s = Some s' \<and>
         new_events s s' =
           pre @ [Millis (now inp), SerialWrite (print_number (now inp))] @ post \<and>
         list_all is_poll pre \<and>
         filter is_read post =
           map (\<lambda>i. HxReadAverage i 5 (truncated_mean (raw_batch inp i 5))) [0..<4] \<and>
         filter is_millis post = []"
    using l n by blast
qed

theorem timestamp_capture_point_witness:
  "ready grams_input 0 \<and>
   (\<exists>z'. loop_single Finite grams_input boot_single = Some z' \<and>
      take 3 (new_events boot_single z') =
        [HxIsReady 0 True, HxReadAverage 0 10 4000, Millis 1234]) \<and>
   all_channels_ready all_ready_input 4 \<and>
   (\<exists>s' pre post. loop_multi all_ready_input boot_multi = Some s' \<and>
      new_events boot_multi s' = pre @ [Millis 1234, SerialWrite ''1234''] @ post \<and>
      list_all is_poll pre \<and>
      filter is_read post =
        [HxReadAverage 0 5 100, HxReadAverage 1 5 200, HxReadAverage 2 5 300,
         HxReadAverage 3 5 400])"
proof (intro conjI)
  show g: "ready grams_input 0" by code_simp
  show a: "all_channels_ready all_ready_input 4" by code_simp
  have m: "truncated_mean (raw_batch grams_input 0 10) = 4000" by code_simp
  have t: "now grams_input = 1234" by code_simp
  from timestamp_capture_point [of grams_input Finite boot_single boot_multi] g
  obtain z' post where "loop_single Finite grams_input boot_single = Some z'"
    "new_events boot_single z' =
      [HxIsReady 0 True, HxReadAverage 0 10 (truncated_mean (raw_batch grams_input 0 10)),
       Millis (now grams_input)] @ post"
    by blast
  then show "\<exists>z'. loop_single Finite grams_input boot_single = Some z' \<and>
      take 3 (new_events boot_single z') =
        [HxIsReady 0 True, HxReadAverage 0 10 4000, Millis 1234]"
    by (simp add: m t)
  have n: "now all_ready_input = 1234" "print_number 1234 = ''1234''"
    by code_simp+
  have e: "map (\<lambda>i. HxReadAverage i 5 (truncated_mean (raw_batch all_ready_input i 5))) [0..<4] =
      [HxReadAverage 0 5 100, HxReadAverage 1 5 200, HxReadAverage 2 5 300,
       HxReadAverage 3 5 400]"
    by code_simp
  from timestamp_capture_point [of all_ready_input Finite boot_single boot_multi] a
  show "\<exists>s' pre post. loop_multi all_ready_input boot_multi = Some s' \<and>
      new_events boot_multi s' = pre @ [Millis 1234, SerialWrite ''1234''] @ post \<and>
      list_all is_poll pre \<and>
      filter is_read post =
        [HxReadAverage 0 5 100, HxReadAverage 1 5 200, HxReadAverage 2 5 300,
         HxReadAverage 3 5 400]"
    unfolding n e by blast
qed


subsection \<open>Polling while waiting\<close>

text \<open>
  C10. In the four-channel sketch the pacing delay runs only in a pass that writes a
  frame. A pass in which some channel is not ready consists of readiness polls only
  (at least one) and returns without a delay; two such passes in a row are readiness
  polls with nothing between them.
\<close>

theorem delay_only_after_frame:
  "(\<exists>s'. loop_multi inp s = Some s' \<and>
      (if all_channels_ready inp 4
       then filter is_delay (new_events s s') = [Delay 50] \<and>
            written (new_events s s') \<noteq> []
       else filter is_delay (new_events s s') = [] \<and> list_all is_poll (new_events s s') \<and>
            new_events s s' \<noteq> []))
   \<and> (\<not> all_channels_ready inp 4 \<and> \<not> all_channels_ready inp' 4 \<longrightarrow>
        (\<exists>s''. passes_multi [inp, inp'] s = Some s'' \<and>
           list_all is_poll (new_events s s'') \<and> 2 \<le> length (new_events s s'')))"
proof (intro conjI impI)
  show "\<exists>s'. loop_multi inp s = Some s' \<and>
      (if all_channels_ready inp 4
       then filter is_delay (new_events s s') = [Delay 50] \<and>
            written (new_events s s') \<noteq> []
       else filter is_delay (new_events s s') = [] \<and> list_all is_poll (new_events s s') \<and>
            new_events s s' \<noteq> [])"
  proof (cases "all_channels_ready inp 4")
    case True
    from loop_multi_ready [OF True, of s] obtain s' where
      l: "loop_multi inp s = Some s'" and
      n: "new_events s s' = map (\<lambda>j. HxIsReady j True) [0..<4]
       @ [Millis (now inp), SerialWrite (print_number (now inp))]
       @ concat (map (channel_events inp) [0..<4])
       @ [SerialWrite crlf, Delay 50]"
      using new_events_append by blast
    have "filter is_delay (new_events s s') = [Delay 50]"
      unfolding n by simp
    moreover have "written (new_events s s') \<noteq> []"
      unfolding n by (simp add: crlf_def)
    ultimately show ?thesis using True l by simp
  next
    case False
    from loop_multi_unready [OF False, of s] obtain s' where
      l: "loop_multi inp s = Some s'" and
      n: "new_events s s' = map (\<lambda>j. HxIsReady j (ready inp j)) (polled inp [0..<4])"
      using new_events_append by blast
    have "polled inp [0..<4] \<noteq> []"
      by (rule polled_not_Nil) simp
    then show ?thesis using False l n by simp
  qed
next
  assume a: "\<not> all_channels_ready inp 4 \<and> \<not> all_channels_ready inp' 4"
  obtain s1 where l1: "loop_multi inp s = Some s1" and
    t1: "trace s1 = trace s @ map (\<lambda>j. HxIsReady j (ready inp j)) (polled inp [0..<4])"
    using loop_multi_unready [of inp s] a by blast
  obtain s2 where l2: "loop_multi inp' s1 = Some s2" and
    t2: "trace s2 = trace s1 @ map (\<lambda>j. HxIsReady j (ready inp' j)) (polled inp' [0..<4])"
    using loop_multi_unready [of inp' s1] a by blast
  have ne: "polled inp [0..<4] \<noteq> []" "polled inp' [0..<4] \<noteq> []"
    by (rule polled_not_Nil, simp)+
  have n: "new_events s s2 = map (\<lambda>j. HxIsReady j (ready inp j)) (polled inp [0..<4])
      @ map (\<lambda>j. HxIsReady j (ready inp' j)) (polled inp' [0..<4])"
    using t1 t2 by simp
  have "2 \<le> length (new_events s s2)"
    unfolding n using ne by (cases "polled inp [0..<4]"; cases "polled inp' [0..<4]") simp_all
  moreover have "list_all is_poll (new_events s s2)"
    unfolding n by simp
  moreover have "passes_multi [inp, inp'] s = Some s2"
    using l1 l2 by simp
  ultimately show "\<exists>s''. passes_multi [inp, inp'] s = Some s'' \<and>
           list_all is_poll (new_events s s'') \<and> 2 \<le> length (new_events s s'')"
    by blast
qed

theorem delay_only_after_frame_witness:
  "\<not> all_channels_ready partly_ready_input 4 \<and> \<not> all_channels_ready idle_input 4 \<and>
   (\<exists>s'. loop_multi partly_ready_input boot_multi = Some s' \<and>
      filter is_delay (new_events boot_multi s') = []) \<and>
   (\<exists>s''. passes_multi [partly_ready_input, idle_input] boot_multi = Some s'' \<and>
      list_all is_poll (new_events boot_multi s'')) \<and>
   all_channels_ready all_ready_input 4 \<and>
   (\<exists>s'. loop_multi all_ready_input boot_multi = Some s' \<and>
      filter is_delay (new_events boot_multi s') = [Delay 50])"
proof -
  have p: "\<not> all_channels_ready partly_ready_input 4" by code_simp
  have i: "\<not> all_channels_ready idle_input 4" by code_simp
  have a: "all_channels_ready all_ready_input 4" by code_simp
  show ?thesis
    using delay_only_after_frame [of partly_ready_input boot_multi idle_input]
      delay_only_after_frame [of all_ready_input boot_multi idle_input] p i a
    by auto
qed

end
